theory Spec2Isabelle
  imports Main "HOL-Library.Word" "HOL-Library.Multiset"
begin

section \<open>The update handler of aos_updatemanager\<close>

text \<open>
  A shallow embedding of package \<open>updatehandler\<close>: the priority scheduler
  \<open>doPriorityOperations\<close>, the reboot loop \<open>componentOperation\<close>, the four
  transition callbacks and the event dispatch \<open>sendEvent\<close>.

  Conventions of the embedding.
  \<^item> A Go \<open>error\<close> is identified with its message; \<open>nil\<close> is \<open>None\<close>.
  \<^item> A Go call that does not return (a nil-pointer panic, a reboot loop that never ends)
    is the value \<open>None\<close> of an option type.
  \<^item> The goroutines of one priority group are run one after the other, in the order of
    the sorted slice.  This is one of the schedules the program admits.
  \<^item> A map whose values carry their own key (\<open>ComponentStatuses[info.ID]\<close> holds a
    status whose \<open>ID\<close> is \<open>info.ID\<close>) is a list of values, looked up by that field;
    a pointer to such a value is its \<open>ID\<close>.
\<close>

subsection \<open>Constants and data\<close>

type_synonym error = string

datatype updateState = stateIdle | statePrepared | stateUpdated | stateFailed

datatype event = eventPrepare | eventUpdate | eventApply | eventRevert

fun stateName :: "updateState \<Rightarrow> string" where
  "stateName stateIdle = ''idle''"
| "stateName statePrepared = ''prepared''"
| "stateName stateUpdated = ''updated''"
| "stateName stateFailed = ''failed''"

fun eventName :: "event \<Rightarrow> string" where
  "eventName eventPrepare = ''prepare''"
| "eventName eventUpdate = ''update''"
| "eventName eventApply = ''apply''"
| "eventName eventRevert = ''revert''"

text \<open>
  Modelled from the spec: the status values of package \<open>umclient\<close>, whose declaration
  is not part of the sources (section 3 of the specification lists them).
\<close>

datatype componentStatus =
  StatusInstalled | StatusInstalling | StatusInstalledUpdated | StatusError

record componentStatusInfo =
  csID :: string
  csVendorVersion :: string
  csAosVersion :: "64 word"
  csStatus :: componentStatus
  csError :: string

record componentUpdateInfo =
  uiID :: string
  uiVendorVersion :: string
  uiAosVersion :: "64 word"
  uiURL :: string
  uiSize :: "64 word"
  uiSha256 :: string
  uiSha512 :: string
  uiAnnotations :: string

record handlerState =
  UpdateState :: updateState
  Error :: string
  ComponentStatuses :: "componentStatusInfo list"

text \<open>
  \<open>componentData\<close>: the module handle is the component id, which is what
  \<open>module.GetID()\<close> returns (\<open>New\<close> creates each module with the id of its map key).
\<close>

record componentData =
  updatePriority :: "32 word"
  rebootPriority :: "32 word"

record 's priorityOperation =
  priority :: "32 word"
  operation :: "'s \<Rightarrow> (error option \<times> 's) option"

subsection \<open>The priority scheduler\<close>

text \<open>
  \<open>sort.Slice\<close> with the comparison \<open>operations[i].priority > operations[j].priority\<close>.
  The library sorts a short slice by insertion: each element in turn moves left past the
  neighbours it is \<open>less\<close> than, so it comes to rest before the first element of the
  sorted prefix it is \<open>less\<close> than.  Elements of equal priority keep their order; the
  program does not depend on it, since they run concurrently.
\<close>

fun insertLess :: "('a \<Rightarrow> 'a \<Rightarrow> bool) \<Rightarrow> 'a \<Rightarrow> 'a list \<Rightarrow> 'a list" where
  "insertLess lt x [] = [x]"
| "insertLess lt x (y # ys) =
     (if lt x y then x # y # ys else y # insertLess lt x ys)"

definition sortSlice :: "('a \<Rightarrow> 'a \<Rightarrow> bool) \<Rightarrow> 'a list \<Rightarrow> 'a list" where
  "sortSlice lt xs = foldl (\<lambda>acc x. insertLess lt x acc) [] xs"

definition sortOperations :: "'s priorityOperation list \<Rightarrow> 's priorityOperation list" where
  "sortOperations operations = sortSlice (\<lambda>a b. priority b < priority a) operations"

text \<open>
  The loop of \<open>doPriorityOperations\<close> over the sorted slice.  Its variables are
  \<open>priority\<close>, \<open>groupErr\<close> and the result \<open>err\<close>; \<open>wg.Wait()\<close> has nothing to wait
  for, since each operation has returned when the next is started.
\<close>

fun doPriorityLoop ::
  "'s priorityOperation list \<Rightarrow> bool \<Rightarrow> 32 word \<Rightarrow> error option \<Rightarrow> error option \<Rightarrow> 's
     \<Rightarrow> (error option \<times> 's) option" where
  "doPriorityLoop [] stopOnError prio groupErr err s =
     Some (if groupErr \<noteq> None \<and> err = None then groupErr else err, s)"
| "doPriorityLoop (item # rest) stopOnError prio groupErr err s =
     (if priority item \<noteq> prio \<and> groupErr \<noteq> None \<and> stopOnError then Some (groupErr, s)
      else
        let err1 = (if priority item \<noteq> prio \<and> groupErr \<noteq> None \<and> err = None
                    then groupErr else err);
            groupErr1 = (if priority item \<noteq> prio then None else groupErr)
        in case operation item s of
             None \<Rightarrow> None
           | Some (r, s1) \<Rightarrow>
               doPriorityLoop rest stopOnError (priority item)
                 (if r \<noteq> None \<and> groupErr1 = None then r else groupErr1) err1 s1)"

definition doPriorityOperations ::
  "'s priorityOperation list \<Rightarrow> bool \<Rightarrow> 's \<Rightarrow> (error option \<times> 's) option" where
  "doPriorityOperations operations stopOnError s =
     (if operations = [] then Some (None, s)
      else let sorted = sortOperations operations
           in doPriorityLoop sorted stopOnError (priority (hd sorted)) None None s)"

subsection \<open>The scheduler as the specification words it\<close>





subsection \<open>Handler, storage, modules\<close>

text \<open>
  Modelled from the spec: the implementation behind interface \<open>StateStorage\<close> is not part
  of the sources.  Section 4.2: per-component versions and one state blob, a read returning
  the value last written; a read of a component never written fails.  Whether a write
  fails is decided by the environment.
\<close>

record storageData =
  stUpdateState :: "handlerState option"
  stAosVersion :: "string \<rightharpoonup> 64 word"
  stVendorVersion :: "string \<rightharpoonup> string"

text \<open>
  The struct \<open>fsm.Event\<close> and the machine of library \<open>looplab/fsm\<close>: the current state
  and the transition that \<open>Event\<close> has set up and \<open>Transition\<close> has not yet run.
\<close>

record fsmEvent =
  evEvent :: event
  evSrc :: updateState
  evDst :: updateState
  evArgs :: "componentUpdateInfo list"

record FSM =
  current :: updateState
  transition :: "fsmEvent option"

record eventDesc =
  Name :: event
  Src :: "updateState list"
  Dst :: updateState

record umStatus =
  usState :: updateState
  usError :: string
  usComponents :: "componentStatusInfo list"

text \<open>
  Every call the handler makes to a module, to the downloader, to a storage writer or to
  the file system, with what it returned.  The list is written only; no decision of the
  handler reads it.
\<close>

datatype call =
    CallGetVendorVersion string string "error option"
  | CallPrepare string string string string "error option"
  | CallUpdate string bool "error option"
  | CallApply string bool "error option"
  | CallRevert string bool "error option"
  | CallReboot string "error option"
  | CallGrab string string string "error option"
  | CallCheckFileInfo string "error option"
  | CallSetVendorVersion string string "error option"
  | CallSetAosVersion string "64 word" "error option"
  | CallSetUpdateState handlerState "error option"
  | CallRemoveAll string "error option"
  | CallMkdirAll string "error option"

text \<open>
  What the handler does not implement itself: the modules behind interface
  \<open>UpdateModule\<close> (addressed by component id), \<open>url.Parse\<close>, the \<open>grab\<close> download,
  \<open>image.CheckFileInfo\<close>, \<open>os.RemoveAll\<close>, \<open>os.MkdirAll\<close>, and the failures of the
  storage writers.  \<open>'m\<close> is the state of that outside world.  A Go result
  \<open>(value, err)\<close> is a pair.
\<close>

record 'm environment =
  mGetVendorVersion :: "string \<Rightarrow> 'm \<Rightarrow> (string \<times> error option) \<times> 'm"
  mPrepare :: "string \<Rightarrow> string \<Rightarrow> string \<Rightarrow> string \<Rightarrow> 'm \<Rightarrow> error option \<times> 'm"
  mUpdate :: "string \<Rightarrow> 'm \<Rightarrow> (bool \<times> error option) \<times> 'm"
  mApply :: "string \<Rightarrow> 'm \<Rightarrow> (bool \<times> error option) \<times> 'm"
  mRevert :: "string \<Rightarrow> 'm \<Rightarrow> (bool \<times> error option) \<times> 'm"
  mReboot :: "string \<Rightarrow> 'm \<Rightarrow> error option \<times> 'm"
  urlParse :: "string \<Rightarrow> error + (string \<times> string)"
  grabDo :: "string \<Rightarrow> string \<Rightarrow> 'm \<Rightarrow> (string \<times> error option) \<times> 'm"
  checkFileInfo :: "string \<Rightarrow> string \<Rightarrow> string \<Rightarrow> 64 word \<Rightarrow> 'm \<Rightarrow> error option"
  osRemoveAll :: "string \<Rightarrow> 'm \<Rightarrow> error option \<times> 'm"
  osMkdirAll :: "string \<Rightarrow> 'm \<Rightarrow> error option \<times> 'm"
  setUpdateStateErr :: "handlerState \<Rightarrow> 'm \<Rightarrow> error option"
  setAosVersionErr :: "string \<Rightarrow> 64 word \<Rightarrow> 'm \<Rightarrow> error option"
  setVendorVersionErr :: "string \<Rightarrow> string \<Rightarrow> 'm \<Rightarrow> error option"

record 'm handler =
  storage :: storageData
  components :: "(string \<times> componentData) list"
  componentStatuses :: "componentStatusInfo list"
  state :: handlerState
  fsm :: FSM
  downloadDir :: string
  statusChannel :: "umStatus list"
  world :: 'm
  calls :: "call list"

definition logCall :: "call \<Rightarrow> 'm handler \<Rightarrow> 'm handler" where
  "logCall c h = h\<lparr>calls := calls h @ [c]\<rparr>"

subsubsection \<open>Calls to the outside\<close>

definition GetVendorVersion ::
  "'m environment \<Rightarrow> string \<Rightarrow> 'm handler \<Rightarrow> (string \<times> error option) \<times> 'm handler" where
  "GetVendorVersion env cid h =
     (case mGetVendorVersion env cid (world h) of
        ((version, err), w) \<Rightarrow>
          ((version, err), logCall (CallGetVendorVersion cid version err) (h\<lparr>world := w\<rparr>)))"

definition Prepare ::
  "'m environment \<Rightarrow> string \<Rightarrow> string \<Rightarrow> string \<Rightarrow> string \<Rightarrow> 'm handler
     \<Rightarrow> error option \<times> 'm handler" where
  "Prepare env cid imagePath vendorVersion annotations h =
     (case mPrepare env cid imagePath vendorVersion annotations (world h) of
        (err, w) \<Rightarrow>
          (err, logCall (CallPrepare cid imagePath vendorVersion annotations err)
                  (h\<lparr>world := w\<rparr>)))"

definition Update ::
  "'m environment \<Rightarrow> string \<Rightarrow> 'm handler \<Rightarrow> (bool \<times> error option) \<times> 'm handler" where
  "Update env cid h =
     (case mUpdate env cid (world h) of
        ((rebootRequired, err), w) \<Rightarrow>
          ((rebootRequired, err), logCall (CallUpdate cid rebootRequired err) (h\<lparr>world := w\<rparr>)))"

definition Apply ::
  "'m environment \<Rightarrow> string \<Rightarrow> 'm handler \<Rightarrow> (bool \<times> error option) \<times> 'm handler" where
  "Apply env cid h =
     (case mApply env cid (world h) of
        ((rebootRequired, err), w) \<Rightarrow>
          ((rebootRequired, err), logCall (CallApply cid rebootRequired err) (h\<lparr>world := w\<rparr>)))"

definition Revert ::
  "'m environment \<Rightarrow> string \<Rightarrow> 'm handler \<Rightarrow> (bool \<times> error option) \<times> 'm handler" where
  "Revert env cid h =
     (case mRevert env cid (world h) of
        ((rebootRequired, err), w) \<Rightarrow>
          ((rebootRequired, err), logCall (CallRevert cid rebootRequired err) (h\<lparr>world := w\<rparr>)))"

definition Reboot :: "'m environment \<Rightarrow> string \<Rightarrow> 'm handler \<Rightarrow> error option \<times> 'm handler" where
  "Reboot env cid h =
     (case mReboot env cid (world h) of
        (err, w) \<Rightarrow> (err, logCall (CallReboot cid err) (h\<lparr>world := w\<rparr>)))"

definition RemoveAll :: "'m environment \<Rightarrow> string \<Rightarrow> 'm handler \<Rightarrow> error option \<times> 'm handler" where
  "RemoveAll env dir h =
     (case osRemoveAll env dir (world h) of
        (err, w) \<Rightarrow> (err, logCall (CallRemoveAll dir err) (h\<lparr>world := w\<rparr>)))"

definition MkdirAll :: "'m environment \<Rightarrow> string \<Rightarrow> 'm handler \<Rightarrow> error option \<times> 'm handler" where
  "MkdirAll env dir h =
     (case osMkdirAll env dir (world h) of
        (err, w) \<Rightarrow> (err, logCall (CallMkdirAll dir err) (h\<lparr>world := w\<rparr>)))"

definition CheckFileInfo ::
  "'m environment \<Rightarrow> string \<Rightarrow> string \<Rightarrow> string \<Rightarrow> 64 word \<Rightarrow> 'm handler
     \<Rightarrow> error option \<times> 'm handler" where
  "CheckFileInfo env filePath sha256 sha512 fsize h =
     (let err = checkFileInfo env filePath sha256 sha512 fsize (world h)
      in (err, logCall (CallCheckFileInfo filePath err) h))"

subsubsection \<open>Storage\<close>

definition SetUpdateState ::
  "'m environment \<Rightarrow> handlerState \<Rightarrow> 'm handler \<Rightarrow> error option \<times> 'm handler" where
  "SetUpdateState env st h =
     (case setUpdateStateErr env st (world h) of
        Some e \<Rightarrow> (Some e, logCall (CallSetUpdateState st (Some e)) h)
      | None \<Rightarrow>
          (None, logCall (CallSetUpdateState st None)
                   (h\<lparr>storage := (storage h)\<lparr>stUpdateState := Some st\<rparr>\<rparr>)))"

definition SetAosVersion ::
  "'m environment \<Rightarrow> string \<Rightarrow> 64 word \<Rightarrow> 'm handler \<Rightarrow> error option \<times> 'm handler" where
  "SetAosVersion env cid version h =
     (case setAosVersionErr env cid version (world h) of
        Some e \<Rightarrow> (Some e, logCall (CallSetAosVersion cid version (Some e)) h)
      | None \<Rightarrow>
          (None, logCall (CallSetAosVersion cid version None)
                   (h\<lparr>storage := (storage h)\<lparr>stAosVersion :=
                         (stAosVersion (storage h))(cid \<mapsto> version)\<rparr>\<rparr>)))"

definition GetAosVersion :: "string \<Rightarrow> 'm handler \<Rightarrow> 64 word \<times> error option" where
  "GetAosVersion cid h =
     (case stAosVersion (storage h) cid of
        None \<Rightarrow> (0, Some ''entry does not exist'')
      | Some version \<Rightarrow> (version, None))"

definition SetVendorVersion ::
  "'m environment \<Rightarrow> string \<Rightarrow> string \<Rightarrow> 'm handler \<Rightarrow> error option \<times> 'm handler" where
  "SetVendorVersion env cid version h =
     (case setVendorVersionErr env cid version (world h) of
        Some e \<Rightarrow> (Some e, logCall (CallSetVendorVersion cid version (Some e)) h)
      | None \<Rightarrow>
          (None, logCall (CallSetVendorVersion cid version None)
                   (h\<lparr>storage := (storage h)\<lparr>stVendorVersion :=
                         (stVendorVersion (storage h))(cid \<mapsto> version)\<rparr>\<rparr>)))"

definition StorageGetVendorVersion :: "string \<Rightarrow> 'm handler \<Rightarrow> string \<times> error option" where
  "StorageGetVendorVersion cid h =
     (case stVendorVersion (storage h) cid of
        None \<Rightarrow> ('''', Some ''entry does not exist'')
      | Some version \<Rightarrow> (version, None))"

subsection \<open>Per-component operations\<close>

definition updStatuses ::
  "(componentStatusInfo list \<Rightarrow> componentStatusInfo list) \<Rightarrow> 'm handler \<Rightarrow> 'm handler" where
  "updStatuses f h =
     h\<lparr>state := (state h)\<lparr>ComponentStatuses := f (ComponentStatuses (state h))\<rparr>\<rparr>"

text \<open>
  \<open>componentError(componentStatus, err)\<close>: the pointer is one of the values of
  \<open>handler.state.ComponentStatuses\<close>, named here by its \<open>ID\<close>.
\<close>

definition componentError :: "string \<Rightarrow> error \<Rightarrow> 'm handler \<Rightarrow> 'm handler" where
  "componentError cid err h =
     updStatuses (map (\<lambda>st. if csID st = cid
                              then st\<lparr>csStatus := StatusError, csError := err\<rparr> else st)) h"

definition notFoundErr :: "string \<Rightarrow> error" where
  "notFoundErr cid = ''component '' @ cid @ '' not found''"

type_synonym 'm componentOp = "string \<Rightarrow> 'm handler \<Rightarrow> ((bool \<times> error option) \<times> 'm handler) option"

text \<open>
  The closure that \<open>doOperation\<close> appends for one component.  Its state is the handler
  together with the local slice \<open>rebootStatuses\<close> it appends to.
\<close>

definition operationClosure ::
  "'m componentOp \<Rightarrow> string \<Rightarrow> 'm handler \<times> string list
     \<Rightarrow> (error option \<times> 'm handler \<times> string list) option" where
  "operationClosure op cid = (\<lambda>(h, rebootStatuses).
     case op cid h of
       None \<Rightarrow> None
     | Some ((rebootRequired, err), h1) \<Rightarrow>
         (case err of
            Some e \<Rightarrow> Some (Some e, componentError cid e h1, rebootStatuses)
          | None \<Rightarrow>
              Some (None, h1,
                    if rebootRequired then rebootStatuses @ [cid] else rebootStatuses)))"

text \<open>
  The first loop of \<open>doOperation\<close>: \<open>Inl\<close> is the early return under \<open>stopOnError\<close>.
\<close>

fun doOperationBuild ::
  "'m componentOp \<Rightarrow> bool \<Rightarrow> string list \<Rightarrow> ('m handler \<times> string list) priorityOperation list
     \<Rightarrow> error option \<Rightarrow> 'm handler
     \<Rightarrow> (error \<times> 'm handler)
        + (('m handler \<times> string list) priorityOperation list \<times> error option \<times> 'm handler)" where
  "doOperationBuild op stopOnError [] operations err h = Inr (operations, err, h)"
| "doOperationBuild op stopOnError (cid # rest) operations err h =
     (case map_of (components h) cid of
        None \<Rightarrow>
          (let h1 = componentError cid (notFoundErr cid) h
           in if stopOnError then Inl (notFoundErr cid, h1)
              else doOperationBuild op stopOnError rest operations
                     (if err = None then Some (notFoundErr cid) else err) h1)
      | Some component \<Rightarrow>
          doOperationBuild op stopOnError rest
            (operations @ [\<lparr>priority = updatePriority component,
                             operation = operationClosure op cid\<rparr>]) err h)"

text \<open>
  \<open>doOperation\<close>.  The assignment \<open>err = doPriorityOperations(...)\<close> replaces whatever
  the first loop had put into \<open>err\<close>.
\<close>

definition doOperation ::
  "string list \<Rightarrow> 'm componentOp \<Rightarrow> bool \<Rightarrow> 'm handler
     \<Rightarrow> (string list \<times> error option \<times> 'm handler) option" where
  "doOperation componentStatuses0 op stopOnError h =
     (case doOperationBuild op stopOnError componentStatuses0 [] None h of
        Inl (e, h1) \<Rightarrow> Some ([], Some e, h1)
      | Inr (operations, err0, h1) \<Rightarrow>
          (case doPriorityOperations operations stopOnError (h1, []) of
             None \<Rightarrow> None
           | Some (err, h2, rebootStatuses) \<Rightarrow> Some (rebootStatuses, err, h2)))"

text \<open>
  \<open>doReboot\<close>.  Its closures use the loop variable \<open>componentStatus\<close> itself (the
  module is copied, the status is not); they run after the loop has ended, when that
  variable holds the last element of the slice (Go 1.14, one variable per loop).
\<close>

definition rebootClosure ::
  "'m environment \<Rightarrow> string \<Rightarrow> string \<Rightarrow> 'm handler \<Rightarrow> (error option \<times> 'm handler) option" where
  "rebootClosure env cid lastID = (\<lambda>h.
     case Reboot env cid h of
       (Some e, h1) \<Rightarrow> Some (Some e, componentError lastID e h1)
     | (None, h1) \<Rightarrow> Some (None, h1))"

fun doRebootBuild ::
  "'m environment \<Rightarrow> string \<Rightarrow> bool \<Rightarrow> string list \<Rightarrow> 'm handler priorityOperation list
     \<Rightarrow> error option \<Rightarrow> 'm handler
     \<Rightarrow> (error \<times> 'm handler) + ('m handler priorityOperation list \<times> error option \<times> 'm handler)" where
  "doRebootBuild env lastID stopOnError [] operations err h = Inr (operations, err, h)"
| "doRebootBuild env lastID stopOnError (cid # rest) operations err h =
     (case map_of (components h) cid of
        None \<Rightarrow>
          (let h1 = componentError cid (notFoundErr cid) h
           in if stopOnError then Inl (notFoundErr cid, h1)
              else doRebootBuild env lastID stopOnError rest operations
                     (if err = None then Some (notFoundErr cid) else err) h1)
      | Some component \<Rightarrow>
          doRebootBuild env lastID stopOnError rest
            (operations @ [\<lparr>priority = rebootPriority component,
                             operation = rebootClosure env cid lastID\<rparr>]) err h)"

definition doReboot ::
  "'m environment \<Rightarrow> string list \<Rightarrow> bool \<Rightarrow> 'm handler \<Rightarrow> (error option \<times> 'm handler) option" where
  "doReboot env componentStatuses0 stopOnError h =
     (case componentStatuses0 of
        [] \<Rightarrow> doPriorityOperations [] stopOnError h
      | _ \<Rightarrow>
          (case doRebootBuild env (last componentStatuses0) stopOnError componentStatuses0
                  [] None h of
             Inl (e, h1) \<Rightarrow> Some (Some e, h1)
           | Inr (operations, err0, h1) \<Rightarrow> doPriorityOperations operations stopOnError h1))"

text \<open>
  \<open>componentOperation\<close>: the loop \<open>for len(operationStatuses) != 0\<close>.  It ends when no
  component asks for a reboot; \<open>None\<close> when it never does.
\<close>

partial_function (option) componentLoop ::
  "'m environment \<Rightarrow> 'm componentOp \<Rightarrow> bool \<Rightarrow> string list \<Rightarrow> error option \<Rightarrow> 'm handler
     \<Rightarrow> (error option \<times> 'm handler) option" where
  "componentLoop env op stopOnError operationStatuses err h =
     (if operationStatuses = [] then Some (err, h)
      else
        case doOperation operationStatuses op stopOnError h of
          None \<Rightarrow> None
        | Some (rebootStatuses, opError, h1) \<Rightarrow>
            if opError \<noteq> None \<and> stopOnError then Some (opError, h1)
            else
              let err1 = (if opError \<noteq> None \<and> err = None then opError else err)
              in if rebootStatuses = [] then Some (err1, h1)
                 else
                   case doReboot env rebootStatuses stopOnError h1 of
                     None \<Rightarrow> None
                   | Some (rebootError, h2) \<Rightarrow>
                       if rebootError \<noteq> None \<and> stopOnError then Some (rebootError, h2)
                       else componentLoop env op stopOnError rebootStatuses
                              (if rebootError \<noteq> None \<and> err1 = None then rebootError else err1)
                              h2)"

declare componentLoop.simps [code]

definition componentOperation ::
  "'m environment \<Rightarrow> 'm componentOp \<Rightarrow> bool \<Rightarrow> 'm handler
     \<Rightarrow> (error option \<times> 'm handler) option" where
  "componentOperation env op stopOnError h =
     componentLoop env op stopOnError (map csID (ComponentStatuses (state h))) None h"

subsection \<open>Prepare\<close>

text \<open>The verb \<open>%d\<close> of \<open>fmt\<close> for an unsigned number.\<close>

fun fmtDigits :: "nat \<Rightarrow> nat \<Rightarrow> string" where
  "fmtDigits 0 n = []"
| "fmtDigits (Suc fuel) n =
     (if n < 10 then [char_of (48 + n)]
      else fmtDigits fuel (n div 10) @ [char_of (48 + n mod 10)])"

definition fmtUint64 :: "64 word \<Rightarrow> string" where
  "fmtUint64 v = fmtDigits 20 (unat v)"

definition downloadImage ::
  "'m environment \<Rightarrow> string \<Rightarrow> string \<Rightarrow> 'm handler \<Rightarrow> (string \<times> error option) \<times> 'm handler" where
  "downloadImage env dir urlStr h =
     (case urlParse env urlStr of
        Inl e \<Rightarrow> (('''', Some e), h)
      | Inr (scheme, path) \<Rightarrow>
          if scheme = ''file'' then ((path, None), h)
          else
            (case grabDo env dir urlStr (world h) of
               ((filename, err), w) \<Rightarrow>
                 ((if err \<noteq> None then '''' else filename, err),
                  logCall (CallGrab dir urlStr filename err) (h\<lparr>world := w\<rparr>))))"

text \<open>The block \<open>if updateInfo.AosVersion != 0\<close> of \<open>prepareComponent\<close>.\<close>

definition checkAosVersion :: "componentUpdateInfo \<Rightarrow> 'm handler \<Rightarrow> error option" where
  "checkAosVersion updateInfo h =
     (if uiAosVersion updateInfo \<noteq> 0 then
        (case GetAosVersion (uiID updateInfo) h of
           (aosVersion, None) \<Rightarrow>
             if aosVersion = uiAosVersion updateInfo
             then Some (''Component already has required Aos version: ''
                          @ fmtUint64 (uiAosVersion updateInfo))
             else if uiAosVersion updateInfo < aosVersion then Some ''wrong Aos version''
             else None
         | (aosVersion, Some e) \<Rightarrow> None)
      else None)"

text \<open>
  \<open>prepareComponent\<close>.  \<open>handler.componentStatuses[updateInfo.ID]\<close> is dereferenced
  without a check: no result when the entry is missing.
\<close>

definition prepareComponent ::
  "'m environment \<Rightarrow> string \<Rightarrow> componentUpdateInfo \<Rightarrow> 'm handler
     \<Rightarrow> (error option \<times> 'm handler) option" where
  "prepareComponent env module updateInfo h =
     (case find (\<lambda>st. csID st = uiID updateInfo) (componentStatuses h) of
        None \<Rightarrow> None
      | Some installed \<Rightarrow>
          (case SetVendorVersion env (uiID updateInfo) (csVendorVersion installed) h of
             (Some e, h1) \<Rightarrow> Some (Some e, h1)
           | (None, h1) \<Rightarrow>
               (case GetVendorVersion env module h1 of
                  ((vendorVersion, err), h2) \<Rightarrow>
                    if err = None \<and> uiVendorVersion updateInfo \<noteq> ''''
                       \<and> vendorVersion = uiVendorVersion updateInfo
                    then Some (Some (''Component already has required vendor version: ''
                                       @ vendorVersion), h2)
                    else
                      (case checkAosVersion updateInfo h2 of
                         Some e \<Rightarrow> Some (Some e, h2)
                       | None \<Rightarrow>
                      (case downloadImage env (downloadDir h2) (uiURL updateInfo) h2 of
                         ((filePath, Some e), h3) \<Rightarrow> Some (Some e, h3)
                       | ((filePath, None), h3) \<Rightarrow>
                           (case CheckFileInfo env filePath (uiSha256 updateInfo)
                                   (uiSha512 updateInfo) (uiSize updateInfo) h3 of
                              (Some e, h4) \<Rightarrow> Some (Some e, h4)
                            | (None, h4) \<Rightarrow>
                                Some (Prepare env module filePath (uiVendorVersion updateInfo)
                                        (uiAnnotations updateInfo) h4)))))))"

text \<open>
  A Go map assignment \<open>m[key] = value\<close> on a map kept as a list of values that carry
  their key.
\<close>

fun setByKey :: "('a \<Rightarrow> 'k) \<Rightarrow> 'a \<Rightarrow> 'a list \<Rightarrow> 'a list" where
  "setByKey key x [] = [x]"
| "setByKey key x (y # ys) = (if key y = key x then x # ys else y # setByKey key x ys)"

definition SetState :: "updateState \<Rightarrow> 'm handler \<Rightarrow> 'm handler" where
  "SetState st h = h\<lparr>fsm := (fsm h)\<lparr>current := st\<rparr>\<rparr>"

definition setError :: "string \<Rightarrow> 'm handler \<Rightarrow> 'm handler" where
  "setError e h = h\<lparr>state := (state h)\<lparr>Error := e\<rparr>\<rparr>"

definition installingStatus :: "componentUpdateInfo \<Rightarrow> componentStatusInfo" where
  "installingStatus info =
     \<lparr>csID = uiID info, csVendorVersion = uiVendorVersion info,
      csAosVersion = uiAosVersion info, csStatus = StatusInstalling, csError = ''''\<rparr>"

definition prepareOperation ::
  "'m environment \<Rightarrow> componentUpdateInfo list \<Rightarrow> 'm componentOp" where
  "prepareOperation env componentsInfo module h =
     (case find (\<lambda>info. uiID info = module) componentsInfo of
        None \<Rightarrow>
          Some ((False, Some (''update info for '' @ module @ '' component not found'')), h)
      | Some updateInfo \<Rightarrow>
          (case prepareComponent env module updateInfo h of
             None \<Rightarrow> None
           | Some (err, h1) \<Rightarrow> Some ((False, err), h1)))"

definition onPrepareState ::
  "'m environment \<Rightarrow> componentUpdateInfo list \<Rightarrow> 'm handler \<Rightarrow> 'm handler option" where
  "onPrepareState env infos h =
     (let h0 = updStatuses (\<lambda>_. []) (setError '''' h)
      in if infos = []
         then Some (SetState stateFailed (setError ''Prepare componenet list is empty'' h0))
         else
           let componentsInfo = foldl (\<lambda>m info. setByKey uiID info m) [] infos;
               h1 = updStatuses
                      (\<lambda>_. foldl (\<lambda>m info. setByKey csID (installingStatus info) m) [] infos) h0
           in case componentOperation env (prepareOperation env componentsInfo) True h1 of
                None \<Rightarrow> None
              | Some (Some e, h2) \<Rightarrow> Some (SetState stateFailed (setError e h2))
              | Some (None, h2) \<Rightarrow> Some h2)"

subsection \<open>Update, apply, revert\<close>

text \<open>
  The closure of \<open>onUpdateState\<close>.  \<open>handler.state.ComponentStatuses[module.GetID()]\<close> is
  dereferenced without a check.
\<close>

definition updateOperation :: "'m environment \<Rightarrow> 'm componentOp" where
  "updateOperation env module h =
     (case Update env module h of
        ((rebootRequired, Some e), h1) \<Rightarrow> Some ((False, Some e), h1)
      | ((rebootRequired, None), h1) \<Rightarrow>
          if \<not> rebootRequired then
            (case GetVendorVersion env module h1 of
               ((vendorVersion, Some e), h2) \<Rightarrow> Some ((False, Some e), h2)
             | ((vendorVersion, None), h2) \<Rightarrow>
                 (case find (\<lambda>st. csID st = module) (ComponentStatuses (state h2)) of
                    None \<Rightarrow> None
                  | Some st \<Rightarrow>
                      if vendorVersion \<noteq> csVendorVersion st
                      then Some ((False, Some (''versions mismatch in request ''
                                   @ csVendorVersion st @ '' and updated module ''
                                   @ vendorVersion)), h2)
                      else Some ((rebootRequired, None), h2)))
          else Some ((rebootRequired, None), h1))"

definition onUpdateState :: "'m environment \<Rightarrow> 'm handler \<Rightarrow> 'm handler option" where
  "onUpdateState env h =
     (case componentOperation env (updateOperation env) True (setError '''' h) of
        None \<Rightarrow> None
      | Some (Some e, h1) \<Rightarrow> Some (SetState stateFailed (setError e h1))
      | Some (None, h1) \<Rightarrow> Some h1)"

definition applyOperation :: "'m environment \<Rightarrow> 'm componentOp" where
  "applyOperation env module h =
     (case Apply env module h of
        ((rebootRequired, Some e), h1) \<Rightarrow> Some ((rebootRequired, Some e), h1)
      | ((rebootRequired, None), h1) \<Rightarrow>
          (case find (\<lambda>st. csID st = module) (ComponentStatuses (state h1)) of
             None \<Rightarrow>
               Some ((rebootRequired,
                      Some (''component '' @ module @ '' status not found'')), h1)
           | Some componentStatus \<Rightarrow>
               (case SetAosVersion env (csID componentStatus)
                       (csAosVersion componentStatus) h1 of
                  (err, h2) \<Rightarrow> Some ((rebootRequired, err), h2))))"

definition onApplyState :: "'m environment \<Rightarrow> 'm handler \<Rightarrow> 'm handler option" where
  "onApplyState env h =
     (case componentOperation env (applyOperation env) False (setError '''' h) of
        None \<Rightarrow> None
      | Some (Some e, h1) \<Rightarrow> Some (setError e h1)
      | Some (None, h1) \<Rightarrow> Some h1)"

definition revertOperation :: "'m environment \<Rightarrow> 'm componentOp" where
  "revertOperation env module h = Some (Revert env module h)"

definition onRevertState :: "'m environment \<Rightarrow> 'm handler \<Rightarrow> 'm handler option" where
  "onRevertState env h =
     (case componentOperation env (revertOperation env) False (setError '''' h) of
        None \<Rightarrow> None
      | Some (Some e, h1) \<Rightarrow> Some (setError e h1)
      | Some (None, h1) \<Rightarrow> Some h1)"

subsection \<open>State changes\<close>

definition updInstalled ::
  "string \<Rightarrow> (componentStatusInfo \<Rightarrow> componentStatusInfo) \<Rightarrow> 'm handler \<Rightarrow> 'm handler" where
  "updInstalled cid f h =
     h\<lparr>componentStatuses := map (\<lambda>st. if csID st = cid then f st else st) (componentStatuses h)\<rparr>"

text \<open>
  \<open>getVersions\<close>, over the keys of \<open>handler.components\<close>.  The assignment through
  \<open>handler.componentStatuses[id]\<close> has no check: no result when the entry is missing.
\<close>

fun getVersionsLoop :: "'m environment \<Rightarrow> string list \<Rightarrow> 'm handler \<Rightarrow> 'm handler option" where
  "getVersionsLoop env [] h = Some h"
| "getVersionsLoop env (cid # rest) h =
     (case (if UpdateState (state h) = stateIdle then GetVendorVersion env cid h
            else (StorageGetVendorVersion cid h, h)) of
        ((vendorVersion, err), h1) \<Rightarrow>
          (case find (\<lambda>st. csID st = cid) (componentStatuses h1) of
             None \<Rightarrow> None
           | Some installed \<Rightarrow>
               let h2 = updInstalled cid (\<lambda>st. st\<lparr>csVendorVersion := vendorVersion\<rparr>) h1;
                   h3 = (case GetAosVersion cid h2 of
                           (aosVersion, None) \<Rightarrow>
                             updInstalled cid (\<lambda>st. st\<lparr>csAosVersion := aosVersion\<rparr>) h2
                         | (aosVersion, Some e) \<Rightarrow> h2)
               in getVersionsLoop env rest h3))"

definition getVersions :: "'m environment \<Rightarrow> 'm handler \<Rightarrow> 'm handler option" where
  "getVersions env h = getVersionsLoop env (map fst (components h)) h"

definition saveState :: "'m environment \<Rightarrow> 'm handler \<Rightarrow> error option \<times> 'm handler" where
  "saveState env h = SetUpdateState env (state h) h"

text \<open>
  \<open>sendStatus\<close>.  The channel is read by the client; a send is taken to return.
\<close>

definition sendStatus :: "'m handler \<Rightarrow> 'm handler" where
  "sendStatus h =
     h\<lparr>statusChannel := statusChannel h @
        [\<lparr>usState = UpdateState (state h), usError = Error (state h),
          usComponents =
            concat (map (\<lambda>componentStatus.
                      componentStatus #
                        (case find (\<lambda>st. csID st = csID componentStatus)
                                (ComponentStatuses (state h)) of
                           None \<Rightarrow> []
                         | Some updateStatus \<Rightarrow> [updateStatus]))
                    (componentStatuses h))\<rparr>]\<rparr>"

definition purgeStatuses :: "'m handler \<Rightarrow> 'm handler" where
  "purgeStatuses h = updStatuses (filter (\<lambda>st. csStatus st = StatusError)) h"

definition cleanDownloadDir :: "'m environment \<Rightarrow> 'm handler \<Rightarrow> 'm handler" where
  "cleanDownloadDir env h =
     (if downloadDir h \<noteq> ''''
      then snd (MkdirAll env (downloadDir h) (snd (RemoveAll env (downloadDir h) h)))
      else h)"

definition onStateChanged :: "'m environment \<Rightarrow> 'm handler \<Rightarrow> 'm handler option" where
  "onStateChanged env h =
     (let h0 = h\<lparr>state := (state h)\<lparr>UpdateState := current (fsm h)\<rparr>\<rparr>
      in case (if UpdateState (state h0) = stateIdle
               then (case getVersions env h0 of
                       None \<Rightarrow> None
                     | Some h1 \<Rightarrow> Some (cleanDownloadDir env (purgeStatuses h1)))
               else Some h0) of
           None \<Rightarrow> None
         | Some h2 \<Rightarrow>
             (case saveState env h2 of
                (Some e, h3) \<Rightarrow>
                  let h4 = (if Error (state h3) = '''' then setError e h3 else h3);
                      h5 = h4\<lparr>state := (state h4)\<lparr>UpdateState := stateFailed\<rparr>\<rparr>
                  in Some (sendStatus (SetState (UpdateState (state h5)) h5))
              | (None, h3) \<Rightarrow> Some (sendStatus h3)))"

subsection \<open>The state machine\<close>

text \<open>The event table that \<open>New\<close> passes to \<open>fsm.NewFSM\<close>.\<close>

definition handlerEvents :: "eventDesc list" where
  "handlerEvents =
     [\<lparr>Name = eventPrepare, Src = [stateIdle], Dst = statePrepared\<rparr>,
      \<lparr>Name = eventUpdate, Src = [statePrepared], Dst = stateUpdated\<rparr>,
      \<lparr>Name = eventApply, Src = [stateUpdated], Dst = stateIdle\<rparr>,
      \<lparr>Name = eventRevert, Src = [statePrepared, stateUpdated, stateFailed], Dst = stateIdle\<rparr>]"

text \<open>
  Library \<open>looplab/fsm\<close>, as its documentation describes it.  \<open>NewFSM\<close> enters one
  destination per pair of event and source state; \<open>Can\<close> holds when the pair of the
  event and the current state has an entry and no transition is under way; \<open>Event\<close>
  refuses otherwise, and else sets the transition up and, the \<open>leave_state\<close> callback
  having asked for it with \<open>e.Async()\<close>, returns \<open>AsyncError\<close>; \<open>Transition\<close> runs the
  transition that was set up: it moves to the destination, runs \<open>after_<event>\<close>, then
  \<open>after_event\<close>, and clears the transition.  No entry of the table has its destination
  among its sources, so the library's branch for an event that stays in its state is never
  taken; it is kept as a refusal.
\<close>

definition transitions :: "eventDesc list \<Rightarrow> (event \<times> updateState) \<rightharpoonup> updateState" where
  "transitions events =
     map_of (rev (concat (map (\<lambda>d. map (\<lambda>src. ((Name d, src), Dst d)) (Src d)) events)))"

definition Can :: "FSM \<Rightarrow> event \<Rightarrow> bool" where
  "Can f ev = (transitions handlerEvents (ev, current f) \<noteq> None \<and> transition f = None)"

definition Cannot :: "FSM \<Rightarrow> event \<Rightarrow> bool" where
  "Cannot f ev = (\<not> Can f ev)"

datatype fsmError = InTransitionError | InvalidEventError | NoTransitionError | AsyncError

definition Event :: "FSM \<Rightarrow> event \<Rightarrow> componentUpdateInfo list \<Rightarrow> fsmError \<times> FSM" where
  "Event f ev args =
     (if transition f \<noteq> None then (InTransitionError, f)
      else case transitions handlerEvents (ev, current f) of
             None \<Rightarrow> (InvalidEventError, f)
           | Some dst \<Rightarrow>
               if current f = dst then (NoTransitionError, f)
               else (AsyncError,
                     f\<lparr>transition :=
                         Some \<lparr>evEvent = ev, evSrc = current f, evDst = dst, evArgs = args\<rparr>\<rparr>))"

definition fsmErrorText :: "fsmError \<Rightarrow> event \<Rightarrow> updateState \<Rightarrow> error" where
  "fsmErrorText e ev st =
     (case e of
        InTransitionError \<Rightarrow>
          ''event '' @ eventName ev @ '' inappropriate because previous transition did not complete''
      | InvalidEventError \<Rightarrow>
          ''event '' @ eventName ev @ '' inappropriate in current state '' @ stateName st
      | NoTransitionError \<Rightarrow> ''no transition''
      | AsyncError \<Rightarrow> ''async started'')"

text \<open>
  \<open>sendEvent\<close>, up to the start of the goroutine that runs \<open>Transition\<close>.
\<close>

definition sendEvent ::
  "event \<Rightarrow> componentUpdateInfo list \<Rightarrow> 'm handler \<Rightarrow> error option \<times> 'm handler" where
  "sendEvent ev args h =
     (if Cannot (fsm h) ev
      then (Some (''error sending event '' @ eventName ev @ '' in state: ''
                    @ stateName (current (fsm h))), h)
      else case Event (fsm h) ev args of
             (AsyncError, f) \<Rightarrow> (None, h\<lparr>fsm := f\<rparr>)
           | (e, f) \<Rightarrow> (Some (fsmErrorText e ev (current (fsm h))), h\<lparr>fsm := f\<rparr>))"

definition afterEvent :: "'m environment \<Rightarrow> fsmEvent \<Rightarrow> 'm handler \<Rightarrow> 'm handler option" where
  "afterEvent env e h =
     (case evEvent e of
        eventPrepare \<Rightarrow> onPrepareState env (evArgs e) h
      | eventUpdate \<Rightarrow> onUpdateState env h
      | eventApply \<Rightarrow> onApplyState env h
      | eventRevert \<Rightarrow> onRevertState env h)"

definition Transition :: "'m environment \<Rightarrow> 'm handler \<Rightarrow> 'm handler option" where
  "Transition env h =
     (case transition (fsm h) of
        None \<Rightarrow> Some h
      | Some e \<Rightarrow>
          (case afterEvent env e (SetState (evDst e) h) of
             None \<Rightarrow> None
           | Some h1 \<Rightarrow>
               (case onStateChanged env h1 of
                  None \<Rightarrow> None
                | Some h2 \<Rightarrow> Some (h2\<lparr>fsm := (fsm h2)\<lparr>transition := None\<rparr>\<rparr>))))"

text \<open>
  One controller request: \<open>sendEvent\<close>, and the goroutine it starts run to its end.
\<close>

definition handleEvent ::
  "'m environment \<Rightarrow> event \<Rightarrow> componentUpdateInfo list \<Rightarrow> 'm handler
     \<Rightarrow> (error option \<times> 'm handler) option" where
  "handleEvent env ev args h =
     (case sendEvent ev args h of
        (Some e, h1) \<Rightarrow> Some (Some e, h1)
      | (None, h1) \<Rightarrow>
          (case Transition env h1 of
             None \<Rightarrow> None
           | Some h2 \<Rightarrow> Some (None, h2)))"

section \<open>Scenarios\<close>

text \<open>
  A configuration with one module \<open>m1\<close> (update priority 10, reboot priority 0), installed
  at vendor version 1.0 and Aos version 7, in a given state of the machine.  The outside
  world is a counter.
\<close>

definition scenarioHandler :: "updateState \<Rightarrow> componentStatusInfo list \<Rightarrow> nat handler" where
  "scenarioHandler st statuses =
     \<lparr>storage = \<lparr>stUpdateState = None, stAosVersion = [''m1'' \<mapsto> 7],
                  stVendorVersion = Map.empty\<rparr>,
      components = [(''m1'', \<lparr>updatePriority = 10, rebootPriority = 0\<rparr>)],
      componentStatuses =
        [\<lparr>csID = ''m1'', csVendorVersion = ''1.0'', csAosVersion = 7,
          csStatus = StatusInstalled, csError = ''''\<rparr>],
      state = \<lparr>UpdateState = st, Error = '''', ComponentStatuses = statuses\<rparr>,
      fsm = \<lparr>current = st, transition = None\<rparr>,
      downloadDir = ''/tmp/download'',
      statusChannel = [],
      world = 0,
      calls = []\<rparr>"



subsection \<open>Notions used in the proofs\<close>



text \<open>
  The module of the scenarios.  The world counts the calls of \<open>Update\<close>: the first asks
  for a reboot, the second does not, and from then on the module reports vendor version
  2.0 instead of 1.0.  Every other call succeeds; every URL is a local file.
\<close>

definition scenarioEnv :: "nat environment" where
  "scenarioEnv =
     \<lparr>mGetVendorVersion = (\<lambda>cid w. ((if 2 \<le> w then ''2.0'' else ''1.0'', None), w)),
      mPrepare = (\<lambda>cid imagePath vendorVersion annotations w. (None, w)),
      mUpdate = (\<lambda>cid w. ((w = 0, None), Suc w)),
      mApply = (\<lambda>cid w. ((False, None), w)),
      mRevert = (\<lambda>cid w. ((False, None), w)),
      mReboot = (\<lambda>cid w. (None, w)),
      urlParse = (\<lambda>urlStr. Inr (''file'', ''/tmp/img'')),
      grabDo = (\<lambda>dir urlStr w. ((''/tmp/download/img'', None), w)),
      checkFileInfo = (\<lambda>filePath sha256 sha512 fsize w. None),
      osRemoveAll = (\<lambda>dir w. (None, w)),
      osMkdirAll = (\<lambda>dir w. (None, w)),
      setUpdateStateErr = (\<lambda>st w. None),
      setAosVersionErr = (\<lambda>cid version w. None),
      setVendorVersionErr = (\<lambda>cid version w. None)\<rparr>"

definition scenarioRequest :: "64 word \<Rightarrow> componentUpdateInfo" where
  "scenarioRequest aosVersion =
     \<lparr>uiID = ''m1'', uiVendorVersion = ''2.0'', uiAosVersion = aosVersion,
      uiURL = ''file:///tmp/img'', uiSize = 4, uiSha256 = ''H'', uiSha512 = ''G'',
      uiAnnotations = ''''\<rparr>"

text \<open>What is read off a result in the scenarios.\<close>

definition resultHandler :: "('a \<times> 'm handler) option \<Rightarrow> 'm handler option" where
  "resultHandler r = map_option snd r"

definition resultError :: "(error option \<times> 'm handler) option \<Rightarrow> error option option" where
  "resultError r = map_option fst r"

definition resultCalls :: "('a \<times> 'm handler) option \<Rightarrow> call list" where
  "resultCalls r = (case r of None \<Rightarrow> [] | Some (e, h) \<Rightarrow> calls h)"

definition resultState :: "('a \<times> 'm handler) option \<Rightarrow> updateState option" where
  "resultState r = (case r of None \<Rightarrow> None | Some (e, h) \<Rightarrow> Some (current (fsm h)))"

definition resultGlobalError :: "('a \<times> 'm handler) option \<Rightarrow> string option" where
  "resultGlobalError r = (case r of None \<Rightarrow> None | Some (e, h) \<Rightarrow> Some (Error (state h)))"

definition resultAosVersion :: "('a \<times> 'm handler) option \<Rightarrow> string \<Rightarrow> 64 word option" where
  "resultAosVersion r cid =
     (case r of None \<Rightarrow> None | Some (e, h) \<Rightarrow> stAosVersion (storage h) cid)"

definition resultVendorVersion :: "('a \<times> 'm handler) option \<Rightarrow> string \<Rightarrow> string option" where
  "resultVendorVersion r cid =
     (case r of None \<Rightarrow> None | Some (e, h) \<Rightarrow> stVendorVersion (storage h) cid)"

text \<open>The state the handler is left with after a prepare without components.\<close>

definition emptyListFailed :: handlerState where
  "emptyListFailed =
     \<lparr>UpdateState = stateFailed, Error = ''Prepare componenet list is empty'',
      ComponentStatuses = []\<rparr>"

text \<open>
  The operations of a slice run one after the other, with the result of each; the first
  error among results.
\<close>

fun runOps :: "'s priorityOperation list \<Rightarrow> 's \<Rightarrow> (error option list \<times> 's) option" where
  "runOps [] s = Some ([], s)"
| "runOps (x # xs) s =
     (case operation x s of
        None \<Rightarrow> None
      | Some (r, s1) \<Rightarrow>
          (case runOps xs s1 of None \<Rightarrow> None | Some (rs, s2) \<Rightarrow> Some (r # rs, s2)))"

fun firstError :: "error option list \<Rightarrow> error option" where
  "firstError [] = None"
| "firstError (None # rs) = firstError rs"
| "firstError (Some e # rs) = Some e"

text \<open>
  The operations that \<open>doOperation\<close> builds, by component id; closures run one after the
  other; the handler after the first loop of \<open>doOperation\<close> has marked every component
  that is not configured.
\<close>

definition componentPriority :: "(string \<times> componentData) list \<Rightarrow> string \<Rightarrow> 32 word" where
  "componentPriority comps cid =
     (case map_of comps cid of None \<Rightarrow> 0 | Some d \<Rightarrow> updatePriority d)"

definition closureOf ::
  "'m componentOp \<Rightarrow> (string \<times> componentData) list \<Rightarrow> string
     \<Rightarrow> ('m handler \<times> string list) priorityOperation" where
  "closureOf op comps cid =
     \<lparr>priority = componentPriority comps cid, operation = operationClosure op cid\<rparr>"

fun runClosures ::
  "(string \<Rightarrow> 's \<Rightarrow> (error option \<times> 's) option) \<Rightarrow> string list \<Rightarrow> 's
     \<Rightarrow> (error option list \<times> 's) option" where
  "runClosures f [] s = Some ([], s)"
| "runClosures f (cid # cids) s =
     (case f cid s of
        None \<Rightarrow> None
      | Some (r, s1) \<Rightarrow>
          (case runClosures f cids s1 of None \<Rightarrow> None | Some (rs, s2) \<Rightarrow> Some (r # rs, s2)))"

fun notFoundErrors :: "string list \<Rightarrow> 'm handler \<Rightarrow> 'm handler" where
  "notFoundErrors [] h = h"
| "notFoundErrors (cid # cids) h =
     notFoundErrors cids
       (if map_of (components h) cid = None then componentError cid (notFoundErr cid) h else h)"

text \<open>
  Counting in the list of calls: the calls of \<open>Update\<close> of a component, those among them
  that returned \<open>rebootRequired = true\<close>, and the calls made between two handlers.
\<close>

fun isUpdateOf :: "string \<Rightarrow> call \<Rightarrow> bool" where
  "isUpdateOf cid (CallUpdate c rebootRequired err) = (c = cid)"
| "isUpdateOf cid _ = False"

fun isRebootRequiredOf :: "string \<Rightarrow> call \<Rightarrow> bool" where
  "isRebootRequiredOf cid (CallUpdate c rebootRequired err) = (c = cid \<and> rebootRequired)"
| "isRebootRequiredOf cid _ = False"

definition updateCalls :: "string \<Rightarrow> call list \<Rightarrow> nat" where
  "updateCalls cid cs = length (filter (isUpdateOf cid) cs)"

definition rebootRequiredReturns :: "string \<Rightarrow> call list \<Rightarrow> nat" where
  "rebootRequiredReturns cid cs = length (filter (isRebootRequiredOf cid) cs)"

definition newCalls :: "'m handler \<Rightarrow> 'm handler \<Rightarrow> call list" where
  "newCalls h h' = drop (length (calls h)) (calls h')"

text \<open>The scenario handler after a successful prepare of version 2.0, Aos version 8.\<close>

definition scenarioPrepared :: "nat handler" where
  "scenarioPrepared = scenarioHandler statePrepared [installingStatus (scenarioRequest 8)]"

section \<open>Properties\<close>

subsection \<open>Events in a wrong state\<close>

lemma transitions_handlerEvents:
  "transitions handlerEvents (ev, st) =
     (case ev of
        eventPrepare \<Rightarrow> if st = stateIdle then Some statePrepared else None
      | eventUpdate \<Rightarrow> if st = statePrepared then Some stateUpdated else None
      | eventApply \<Rightarrow> if st = stateUpdated then Some stateIdle else None
      | eventRevert \<Rightarrow>
          if st \<in> {statePrepared, stateUpdated, stateFailed} then Some stateIdle else None)"
  by (cases ev; cases st) (simp_all add: transitions_def handlerEvents_def)

text \<open>
  Claim C1.  An event sent while the machine is in a state outside the sources of that
  event (prepare: idle; update: prepared; apply: updated; revert: prepared, updated or
  failed) is answered by the error of \<open>sendEvent\<close> that names the event and the state, and
  the handler, its machine included, is left as it was; no goroutine is started.  In state
  failed, an event that is accepted is revert.
\<close>

theorem sendEvent_wrong_state:
  "((ev = eventPrepare \<and> current (fsm h) \<noteq> stateIdle)
      \<or> (ev = eventUpdate \<and> current (fsm h) \<noteq> statePrepared)
      \<or> (ev = eventApply \<and> current (fsm h) \<noteq> stateUpdated)
      \<or> (ev = eventRevert \<and> current (fsm h) \<notin> {statePrepared, stateUpdated, stateFailed})
    \<longrightarrow> sendEvent ev args h =
          (Some (''error sending event '' @ eventName ev @ '' in state: ''
                   @ stateName (current (fsm h))), h)
      \<and> handleEvent env ev args h =
          Some (Some (''error sending event '' @ eventName ev @ '' in state: ''
                   @ stateName (current (fsm h))), h))
   \<and> (current (fsm h) = stateFailed \<and> fst (sendEvent ev args h) = None \<longrightarrow> ev = eventRevert)"
  by (cases ev)
     (auto simp: sendEvent_def handleEvent_def Cannot_def Can_def transitions_handlerEvents)

theorem sendEvent_wrong_state_witness:
  "sendEvent eventUpdate [] (scenarioHandler stateFailed []) =
     (Some ''error sending event update in state: failed'', scenarioHandler stateFailed [])
   \<and> fst (sendEvent eventRevert [] (scenarioHandler stateFailed [])) = None"
proof -
  have st: "current (fsm (scenarioHandler stateFailed [])) = stateFailed"
    by (simp add: scenarioHandler_def)
  have "sendEvent eventUpdate [] (scenarioHandler stateFailed []) =
     (Some ''error sending event update in state: failed'', scenarioHandler stateFailed [])"
    using sendEvent_wrong_state [of eventUpdate "scenarioHandler stateFailed []" "[]"] st
    by simp
  moreover have "fst (sendEvent eventRevert [] (scenarioHandler stateFailed [])) = None"
    by (simp add: sendEvent_def Cannot_def Can_def transitions_handlerEvents Event_def
        scenarioHandler_def)
  ultimately show ?thesis by simp
qed

subsection \<open>The scheduler\<close>

lemma mset_insertLess: "mset (insertLess lt x ys) = add_mset x (mset ys)"
  by (induction ys) auto

lemma mset_foldl_insertLess:
  "mset (foldl (\<lambda>acc x. insertLess lt x acc) acc xs) = mset acc + mset xs"
  by (induction xs arbitrary: acc) (auto simp: mset_insertLess)

lemma mset_sortOperations: "mset (sortOperations ops) = mset ops"
  by (simp add: sortOperations_def sortSlice_def mset_foldl_insertLess)

lemma set_sortOperations: "set (sortOperations ops) = set ops"
  using mset_sortOperations [of ops] by (metis set_mset_mset)






















subsection \<open>Prepare without components\<close>

lemma handlerState_all_updated:
  "(st::handlerState)\<lparr>ComponentStatuses := c, Error := e, UpdateState := u\<rparr>
     = \<lparr>UpdateState = u, Error = e, ComponentStatuses = c\<rparr>"
  by (cases st) simp

text \<open>
  Claim C10.  A prepare event with an empty list, sent in state idle with no transition
  under way (where the event is accepted), leaves the machine in state failed with the
  global error \<open>Prepare componenet list is empty\<close> and no component status.  The one call
  to the outside is the write of that state: no module is called and nothing is fetched.
\<close>

theorem prepare_empty_list:
  assumes "current (fsm h) = stateIdle" and "transition (fsm h) = None"
  shows "\<exists>h'. handleEvent env eventPrepare [] h = Some (None, h')
     \<and> current (fsm h') = stateFailed
     \<and> transition (fsm h') = None
     \<and> state h' = emptyListFailed
     \<and> world h' = world h
     \<and> storage h' = (case setUpdateStateErr env emptyListFailed (world h) of
                        None \<Rightarrow> (storage h)\<lparr>stUpdateState := Some emptyListFailed\<rparr>
                      | Some e \<Rightarrow> storage h)
     \<and> calls h' = calls h @ [CallSetUpdateState emptyListFailed
                                (setUpdateStateErr env emptyListFailed (world h))]"
  using assms
  by (cases "setUpdateStateErr env emptyListFailed (world h)")
     (simp_all add: handleEvent_def sendEvent_def Cannot_def Can_def transitions_handlerEvents
      Event_def Transition_def afterEvent_def onPrepareState_def SetState_def setError_def
      updStatuses_def onStateChanged_def saveState_def SetUpdateState_def logCall_def
      sendStatus_def Let_def emptyListFailed_def handlerState_all_updated)

theorem prepare_empty_list_witness:
  "resultState (handleEvent scenarioEnv eventPrepare [] (scenarioHandler stateIdle []))
     = Some stateFailed
   \<and> resultGlobalError (handleEvent scenarioEnv eventPrepare [] (scenarioHandler stateIdle []))
     = Some ''Prepare componenet list is empty''
   \<and> resultCalls (handleEvent scenarioEnv eventPrepare [] (scenarioHandler stateIdle []))
     = [CallSetUpdateState emptyListFailed None]"
proof -
  have idle: "current (fsm (scenarioHandler stateIdle [])) = stateIdle"
    and quiet: "transition (fsm (scenarioHandler stateIdle [])) = None"
    by (simp_all add: scenarioHandler_def)
  from prepare_empty_list [OF idle quiet, of scenarioEnv] obtain h' where
    "handleEvent scenarioEnv eventPrepare [] (scenarioHandler stateIdle []) = Some (None, h')"
    "current (fsm h') = stateFailed" "state h' = emptyListFailed"
    "calls h' = calls (scenarioHandler stateIdle []) @
       [CallSetUpdateState emptyListFailed
          (setUpdateStateErr scenarioEnv emptyListFailed (world (scenarioHandler stateIdle [])))]"
    by blast
  then show ?thesis
    by (simp add: resultState_def resultGlobalError_def resultCalls_def emptyListFailed_def
        scenarioHandler_def scenarioEnv_def)
qed

subsection \<open>The vendor version written by prepare\<close>

text \<open>
  Claim C5, as amended.  The first thing \<open>prepareComponent\<close> does for an item is to write a
  vendor version into the vendor-version storage, before the version checks, the fetch,
  the verification and the module's \<open>Prepare\<close>; the version written is the one the handler
  currently reports for that component (\<open>handler.componentStatuses[id].VendorVersion\<close>), not
  the one the request declares.  When the write fails, that error is returned and nothing
  else is done.
\<close>

theorem prepareComponent_persists_installed_version:
  assumes "find (\<lambda>st. csID st = uiID updateInfo) (componentStatuses h) = Some installed"
  shows "\<exists>err h' rest.
       prepareComponent env module updateInfo h = Some (err, h')
     \<and> calls h' = calls h @
          CallSetVendorVersion (uiID updateInfo) (csVendorVersion installed)
            (setVendorVersionErr env (uiID updateInfo) (csVendorVersion installed) (world h))
          # rest
     \<and> (case setVendorVersionErr env (uiID updateInfo) (csVendorVersion installed) (world h) of
          None \<Rightarrow> stVendorVersion (storage h') (uiID updateInfo) = Some (csVendorVersion installed)
        | Some e \<Rightarrow> err = Some e \<and> rest = [] \<and> storage h' = storage h)"
  using assms
  by (auto simp: prepareComponent_def SetVendorVersion_def GetVendorVersion_def logCall_def
      downloadImage_def CheckFileInfo_def Prepare_def Let_def
      split: option.splits prod.splits sum.splits)

theorem prepareComponent_persists_installed_version_witness:
  "hd (resultCalls (prepareComponent scenarioEnv ''m1'' (scenarioRequest 8)
                      (scenarioHandler stateIdle []))) =
     CallSetVendorVersion ''m1'' ''1.0'' None
   \<and> resultVendorVersion (prepareComponent scenarioEnv ''m1'' (scenarioRequest 8)
                  (scenarioHandler stateIdle [])) ''m1'' = Some ''1.0''"
proof -
  have inst: "find (\<lambda>st. csID st = uiID (scenarioRequest 8))
                (componentStatuses (scenarioHandler stateIdle [])) =
      Some \<lparr>csID = ''m1'', csVendorVersion = ''1.0'', csAosVersion = 7,
            csStatus = StatusInstalled, csError = ''''\<rparr>"
    by (simp add: scenarioHandler_def scenarioRequest_def)
  from prepareComponent_persists_installed_version [OF inst, of scenarioEnv "''m1''"]
  obtain err h' rest where
    "prepareComponent scenarioEnv ''m1'' (scenarioRequest 8) (scenarioHandler stateIdle [])
       = Some (err, h')"
    "calls h' = CallSetVendorVersion ''m1'' ''1.0'' None # rest"
    "stVendorVersion (storage h') ''m1'' = Some ''1.0''"
    by (auto simp: scenarioHandler_def scenarioRequest_def scenarioEnv_def)
  then show ?thesis
    by (simp add: resultCalls_def resultVendorVersion_def)
qed

text \<open>
  Claim C5 as stated fails: the module is installed at vendor version 1.0, the request
  declares 2.0, and prepare writes 1.0.
\<close>

theorem prepareComponent_vendorVersion_counterexample:
  "resultCalls (prepareComponent scenarioEnv ''m1'' (scenarioRequest 8)
                  (scenarioHandler stateIdle [])) =
     [CallSetVendorVersion ''m1'' ''1.0'' None, CallGetVendorVersion ''m1'' ''1.0'' None,
      CallCheckFileInfo ''/tmp/img'' None, CallPrepare ''m1'' ''/tmp/img'' ''2.0'' [] None]
   \<and> resultVendorVersion (prepareComponent scenarioEnv ''m1'' (scenarioRequest 8)
                  (scenarioHandler stateIdle [])) ''m1'' = Some ''1.0''
   \<and> uiVendorVersion (scenarioRequest 8) = ''2.0''"
  by code_simp

subsection \<open>Facts about the scheduler used for the handler\<close>

lemma doPriorityLoop_invariant:
  assumes "doPriorityLoop xs stop prio gerr err s = Some (e, s')" and "P s"
    and "\<And>x s r s1. x \<in> set xs \<Longrightarrow> P s \<Longrightarrow> operation x s = Some (r, s1) \<Longrightarrow> P s1"
  shows "P s'"
  using assms
proof (induction xs arbitrary: prio gerr err s)
  case Nil
  then show ?case by simp
next
  case (Cons x xs)
  show ?case
  proof (cases "priority x \<noteq> prio \<and> gerr \<noteq> None \<and> stop")
    case True
    then show ?thesis using Cons.prems(1,2) by simp
  next
    case False
    then obtain r s1 where op: "operation x s = Some (r, s1)"
      using Cons.prems(1) by (auto simp: Let_def split: option.splits)
    have P1: "P s1" using Cons.prems(3) [of x s r s1] Cons.prems(2) op by simp
    obtain g1 e1 where "doPriorityLoop xs stop (priority x) g1 e1 s1 = Some (e, s')"
      using Cons.prems(1) False op by (auto simp: Let_def)
    then show ?thesis
      using Cons.IH [of "priority x" g1 e1 s1] P1 Cons.prems(3) by auto
  qed
qed

lemma doPriorityOperations_invariant:
  assumes "doPriorityOperations ops stop s = Some (e, s')" and "P s"
    and "\<And>x s r s1. x \<in> set ops \<Longrightarrow> P s \<Longrightarrow> operation x s = Some (r, s1) \<Longrightarrow> P s1"
  shows "P s'"
proof (cases "ops = []")
  case True
  then show ?thesis using assms by (simp add: doPriorityOperations_def)
next
  case False
  then have "doPriorityLoop (sortOperations ops) stop (priority (hd (sortOperations ops)))
               None None s = Some (e, s')"
    using assms(1) by (simp add: doPriorityOperations_def Let_def)
  then show ?thesis
  proof (rule doPriorityLoop_invariant [where P = P])
    show "P s" by (rule assms(2))
  next
    fix x s r s1
    assume "x \<in> set (sortOperations ops)" "P s" "operation x s = Some (r, s1)"
    then show "P s1" using assms(3) [of x s r s1] by (simp add: set_sortOperations)
  qed
qed

lemma doPriorityLoop_False:
  "doPriorityLoop xs False prio gerr err s =
     (case runOps xs s of
        None \<Rightarrow> None
      | Some (rs, s') \<Rightarrow> Some (firstError (err # gerr # rs), s'))"
proof (induction xs arbitrary: prio gerr err s)
  case Nil
  then show ?case by (cases err; cases gerr) auto
next
  case (Cons x xs)
  show ?case
  proof (cases "operation x s")
    case None
    then show ?thesis by simp
  next
    case (Some p)
    obtain r s1 where p: "p = (r, s1)" by (cases p)
    show ?thesis
      using Some p
      by (cases "runOps xs s1"; cases err; cases gerr; cases r)
         (auto simp: Cons.IH Let_def)
  qed
qed

lemma doPriorityLoop_None:
  "doPriorityLoop xs stop prio gerr err s = Some (None, s') \<Longrightarrow>
     gerr = None \<and> err = None \<and> (\<exists>rs. runOps xs s = Some (rs, s') \<and> (\<forall>r \<in> set rs. r = None))"
proof (induction xs arbitrary: prio gerr err s)
  case Nil
  then show ?case by (cases err; cases gerr) (auto split: if_splits)
next
  case (Cons x xs)
  have nb: "\<not> (priority x \<noteq> prio \<and> gerr \<noteq> None \<and> stop)"
    using Cons.prems by auto
  then obtain r s1 where op: "operation x s = Some (r, s1)"
    using Cons.prems by (auto simp: Let_def split: option.splits)
  let ?G = "(if r \<noteq> None \<and> (if priority x \<noteq> prio then None else gerr) = None then r
             else (if priority x \<noteq> prio then None else gerr))"
  let ?E = "(if priority x \<noteq> prio \<and> gerr \<noteq> None \<and> err = None then gerr else err)"
  have "doPriorityLoop xs stop (priority x) ?G ?E s1 = Some (None, s')"
    using Cons.prems nb op by (auto simp: Let_def)
  from Cons.IH [OF this] have G: "?G = None" and E: "?E = None"
    and R: "\<exists>rs. runOps xs s1 = Some (rs, s') \<and> (\<forall>r \<in> set rs. r = None)"
    by blast+
  have "r = None" using G by (auto split: if_splits)
  moreover have "gerr = None" using G E by (auto split: if_splits)
  moreover have "err = None" using E by (auto split: if_splits)
  ultimately show ?case using R op by auto
qed

lemma doPriorityOperations_False:
  "doPriorityOperations ops False s =
     (case runOps (sortOperations ops) s of
        None \<Rightarrow> None
      | Some (rs, s') \<Rightarrow> Some (firstError rs, s'))"
proof (cases "ops = []")
  case True
  then show ?thesis
    by (simp add: doPriorityOperations_def sortOperations_def sortSlice_def)
next
  case False
  then show ?thesis
    by (cases "runOps (sortOperations ops) s")
       (auto simp: doPriorityOperations_def Let_def doPriorityLoop_False)
qed

lemma doPriorityOperations_None:
  assumes "doPriorityOperations ops stop s = Some (None, s')"
  shows "\<exists>rs. runOps (sortOperations ops) s = Some (rs, s') \<and> (\<forall>r \<in> set rs. r = None)"
proof (cases "ops = []")
  case True
  then show ?thesis using assms
    by (simp add: doPriorityOperations_def sortOperations_def sortSlice_def)
next
  case False
  then have "doPriorityLoop (sortOperations ops) stop (priority (hd (sortOperations ops)))
               None None s = Some (None, s')"
    using assms by (simp add: doPriorityOperations_def Let_def)
  from doPriorityLoop_None [OF this] show ?thesis by blast
qed

lemma insertLess_map:
  "(\<And>a b. lt' (f a) (f b) = lt a b) \<Longrightarrow>
   insertLess lt' (f x) (map f ys) = map f (insertLess lt x ys)"
  by (induction ys) auto

lemma foldl_insertLess_map:
  "(\<And>a b. lt' (f a) (f b) = lt a b) \<Longrightarrow>
   foldl (\<lambda>acc x. insertLess lt' x acc) (map f acc) (map f xs)
         = map f (foldl (\<lambda>acc x. insertLess lt x acc) acc xs)"
proof (induction xs arbitrary: acc)
  case Nil
  then show ?case by simp
next
  case (Cons x xs)
  have "insertLess lt' (f x) (map f acc) = map f (insertLess lt x acc)"
    using Cons.prems by (rule insertLess_map)
  then show ?case using Cons.IH [of "insertLess lt x acc"] Cons.prems by simp
qed

lemma sortSlice_map:
  assumes "\<And>a b. lt' (f a) (f b) = lt a b"
  shows "sortSlice lt' (map f xs) = map f (sortSlice lt xs)"
  using foldl_insertLess_map [of lt' f lt "[]" xs] assms by (simp add: sortSlice_def)

lemma mset_sortSlice: "mset (sortSlice lt xs) = mset xs"
  by (simp add: sortSlice_def mset_foldl_insertLess)

subsection \<open>Facts about the reboot loop\<close>

lemma componentError_fields [simp]:
  "calls (componentError c e h) = calls h"
  "components (componentError c e h) = components h"
  "storage (componentError c e h) = storage h"
  "world (componentError c e h) = world h"
  "fsm (componentError c e h) = fsm h"
  "componentStatuses (componentError c e h) = componentStatuses h"
  "downloadDir (componentError c e h) = downloadDir h"
  by (simp_all add: componentError_def updStatuses_def)

lemma notFoundErrors_components [simp]: "components (notFoundErrors S h) = components h"
  by (induction S arbitrary: h) auto

lemma runOps_closures:
  "runOps (map (\<lambda>c. \<lparr>priority = p c, operation = f c\<rparr>) S) s = runClosures f S s"
  by (induction S arbitrary: s) (auto split: option.splits)

lemma doOperationBuild_Inr:
  "doOperationBuild op stop S ops0 err0 h = Inr (ops, err, h1) \<Longrightarrow>
     ops = ops0 @ map (closureOf op (components h))
                    (filter (\<lambda>c. map_of (components h) c \<noteq> None) S)
   \<and> h1 = notFoundErrors S h
   \<and> (stop \<longrightarrow> h1 = h \<and> err = err0 \<and> (\<forall>c \<in> set S. map_of (components h) c \<noteq> None))"
proof (induction S arbitrary: ops0 err0 h)
  case Nil
  then show ?case by simp
next
  case (Cons c S)
  show ?case
  proof (cases "map_of (components h) c")
    case None
    then have ns: "\<not> stop" using Cons.prems by (auto simp: Let_def split: if_splits)
    let ?h = "componentError c (notFoundErr c) h"
    have "doOperationBuild op stop S ops0 (if err0 = None then Some (notFoundErr c) else err0) ?h
            = Inr (ops, err, h1)"
      using Cons.prems None ns by (simp add: Let_def)
    from Cons.IH [OF this] show ?thesis using None ns by simp
  next
    case (Some d)
    have "doOperationBuild op stop S
            (ops0 @ [\<lparr>priority = updatePriority d, operation = operationClosure op c\<rparr>]) err0 h
            = Inr (ops, err, h1)"
      using Cons.prems Some by simp
    from Cons.IH [OF this] show ?thesis using Some
      by (auto simp add: closureOf_def componentPriority_def)
  qed
qed

lemma doOperationBuild_Inl:
  "doOperationBuild op stop S ops0 err0 h = Inl (e, h1) \<Longrightarrow>
     stop \<and> (\<exists>c \<in> set S. map_of (components h) c = None \<and> e = notFoundErr c
                \<and> h1 = componentError c (notFoundErr c) h)"
proof (induction S arbitrary: ops0 err0 h)
  case Nil
  then show ?case by simp
next
  case (Cons c S)
  show ?case
  proof (cases "map_of (components h) c")
    case None
    show ?thesis
    proof (cases stop)
      case True
      then show ?thesis using Cons.prems None by (auto simp: Let_def)
    next
      case False
      let ?h = "componentError c (notFoundErr c) h"
      have "doOperationBuild op stop S ops0 (if err0 = None then Some (notFoundErr c) else err0) ?h
            = Inl (e, h1)"
        using Cons.prems None False by (simp add: Let_def)
      from Cons.IH [OF this] show ?thesis using False by simp
    qed
  next
    case (Some d)
    have "doOperationBuild op stop S
            (ops0 @ [\<lparr>priority = updatePriority d, operation = operationClosure op c\<rparr>]) err0 h
            = Inl (e, h1)"
      using Cons.prems Some by simp
    from Cons.IH [OF this] show ?thesis by auto
  qed
qed

lemma sortOperations_closures:
  "sortOperations (map (closureOf op comps) S)
     = map (closureOf op comps)
         (sortSlice (\<lambda>a b. componentPriority comps b < componentPriority comps a) S)"
  unfolding sortOperations_def
  by (rule sortSlice_map) (simp add: closureOf_def)

lemma runOps_closureOf:
  "runOps (map (closureOf op comps) S) s = runClosures (operationClosure op) S s"
  unfolding closureOf_def by (rule runOps_closures)

lemma doOperation_ok:
  assumes "doOperation S op True h = Some (R, None, h1)"
  shows "\<exists>S' rs. mset S' = mset S
       \<and> runClosures (operationClosure op) S' (h, []) = Some (rs, (h1, R))
       \<and> (\<forall>r \<in> set rs. r = None)"
proof -
  obtain ops err0 h0 where b: "doOperationBuild op True S [] None h = Inr (ops, err0, h0)"
    using assms by (auto simp: doOperation_def split: sum.splits option.splits)
  from doOperationBuild_Inr [OF b] have ops: "ops = map (closureOf op (components h)) S"
    and h0: "h0 = h" by (auto simp: filter_id_conv)
  have "doPriorityOperations ops True (h, []) = Some (None, (h1, R))"
    using assms b h0 by (auto simp: doOperation_def split: option.splits)
  from doPriorityOperations_None [OF this] obtain rs where
    "runOps (sortOperations ops) (h, []) = Some (rs, (h1, R))" "\<forall>r \<in> set rs. r = None"
    by blast
  then show ?thesis
    unfolding ops sortOperations_closures runOps_closureOf
    using mset_sortSlice by blast
qed

lemma doOperation_all:
  assumes "doOperation S op False h = Some (R, e, h1)"
  shows "\<exists>S' rs. mset S' = mset (filter (\<lambda>c. map_of (components h) c \<noteq> None) S)
       \<and> runClosures (operationClosure op) S' (notFoundErrors S h, []) = Some (rs, (h1, R))
       \<and> e = firstError rs"
proof -
  obtain ops err0 h0 where b: "doOperationBuild op False S [] None h = Inr (ops, err0, h0)"
    using assms doOperationBuild_Inl [of op False S "[]" None h]
    by (cases "doOperationBuild op False S [] None h") auto
  from doOperationBuild_Inr [OF b] have
    ops: "ops = map (closureOf op (components h)) (filter (\<lambda>c. map_of (components h) c \<noteq> None) S)"
    and h0: "h0 = notFoundErrors S h" by auto
  have "doPriorityOperations ops False (h0, []) = Some (e, (h1, R))"
    using assms b by (auto simp: doOperation_def split: option.splits)
  then obtain rs where
    "runOps (sortOperations ops) (h0, []) = Some (rs, (h1, R))" "e = firstError rs"
    by (auto simp: doPriorityOperations_False split: option.splits)
  then show ?thesis
    unfolding ops sortOperations_closures runOps_closureOf h0
    using mset_sortSlice by blast
qed

lemma componentLoop_cases:
  assumes run: "componentLoop env op stop S err h = Some (e, h')"
    and exit: "\<And>err h. Q [] err h err h"
    and opStop: "\<And>S err h R opError h1.
        S \<noteq> [] \<Longrightarrow> doOperation S op stop h = Some (R, opError, h1) \<Longrightarrow>
        opError \<noteq> None \<Longrightarrow> stop \<Longrightarrow> Q S err h opError h1"
    and noReboot: "\<And>S err h opError h1.
        S \<noteq> [] \<Longrightarrow> doOperation S op stop h = Some ([], opError, h1) \<Longrightarrow>
        \<not> (opError \<noteq> None \<and> stop) \<Longrightarrow>
        Q S err h (if opError \<noteq> None \<and> err = None then opError else err) h1"
    and rebootStop: "\<And>S err h R opError h1 rebootError h2.
        S \<noteq> [] \<Longrightarrow> doOperation S op stop h = Some (R, opError, h1) \<Longrightarrow>
        \<not> (opError \<noteq> None \<and> stop) \<Longrightarrow> R \<noteq> [] \<Longrightarrow>
        doReboot env R stop h1 = Some (rebootError, h2) \<Longrightarrow>
        rebootError \<noteq> None \<Longrightarrow> stop \<Longrightarrow> Q S err h rebootError h2"
    and again: "\<And>S err h R opError h1 rebootError h2 e h'.
        S \<noteq> [] \<Longrightarrow> doOperation S op stop h = Some (R, opError, h1) \<Longrightarrow>
        \<not> (opError \<noteq> None \<and> stop) \<Longrightarrow> R \<noteq> [] \<Longrightarrow>
        doReboot env R stop h1 = Some (rebootError, h2) \<Longrightarrow>
        \<not> (rebootError \<noteq> None \<and> stop) \<Longrightarrow>
        Q R (if rebootError \<noteq> None \<and> (if opError \<noteq> None \<and> err = None then opError else err) = None
             then rebootError
             else (if opError \<noteq> None \<and> err = None then opError else err)) h2 e h' \<Longrightarrow>
        Q S err h e h'"
  shows "Q S err h e h'"
proof -
  let ?P = "\<lambda>env' op' stop' S err h y.
              env' = env \<and> op' = op \<and> stop' = stop \<longrightarrow> Q S err h (fst y) (snd y)"
  have "?P env op stop S err h (e, h')"
  proof (rule componentLoop.raw_induct [where P = ?P, OF _ run], goal_cases)
    case (1 loop env' op' stop' S err h y)
    show ?case
    proof (intro impI)
      assume eq: "env' = env \<and> op' = op \<and> stop' = stop"
      have IH: "\<And>S err h y. loop env op stop S err h = Some y \<Longrightarrow> Q S err h (fst y) (snd y)"
        using 1(1) by blast
      note body = 1(2)
      show "Q S err h (fst y) (snd y)"
      proof (cases "S = []")
        case True
        then show ?thesis using body exit by auto
      next
        case False
        then obtain R opError h1 where d: "doOperation S op stop h = Some (R, opError, h1)"
          using body eq by (auto split: option.splits)
        show ?thesis
        proof (cases "opError \<noteq> None \<and> stop")
          case True
          then show ?thesis using body eq False d opStop [OF False d] by auto
        next
          case nos: False
          let ?err1 = "if opError \<noteq> None \<and> err = None then opError else err"
          show ?thesis
          proof (cases "R = []")
            case True
            with d have d': "doOperation S op stop h = Some ([], opError, h1)" by simp
            have "Q S err h ?err1 h1" using nos by (intro noReboot [OF False d']) 
            moreover have "y = (?err1, h1)" using body eq False d' nos by (auto simp: Let_def)
            ultimately show ?thesis by simp
          next
            case R: False
            then obtain rebootError h2 where
              r: "doReboot env R stop h1 = Some (rebootError, h2)"
              using body eq False d nos by (auto simp: Let_def split: option.splits)
            show ?thesis
            proof (cases "rebootError \<noteq> None \<and> stop")
              case True
              then show ?thesis
                using body eq False d nos R r rebootStop [OF False d nos R r] by (auto simp: Let_def)
            next
              case nor: False
              let ?err2 = "if rebootError \<noteq> None \<and> ?err1 = None then rebootError else ?err1"
              have "loop env op stop R ?err2 h2 = Some y"
                using body eq False d nos R r nor by (auto simp: Let_def)
              from IH [OF this] have "Q R ?err2 h2 (fst y) (snd y)" .
              from again [OF False d nos R r nor this] show ?thesis .
            qed
          qed
        qed
      qed
    qed
  qed
  then show ?thesis by simp
qed

lemma notFoundErrors_invariant:
  "P h \<Longrightarrow> (\<And>c e h. P h \<Longrightarrow> P (componentError c e h)) \<Longrightarrow> P (notFoundErrors S h)"
  by (induction S arbitrary: h) auto

lemma operationClosure_invariant:
  assumes "operationClosure op c (h, R) = Some (r, (h1, R1))" and "P h"
    and "\<And>c h r h1. P h \<Longrightarrow> op c h = Some (r, h1) \<Longrightarrow> P h1"
    and "\<And>c e h. P h \<Longrightarrow> P (componentError c e h)"
  shows "P h1"
  using assms
  by (auto simp: operationClosure_def split: option.splits prod.splits)

lemma doOperation_invariant:
  assumes run: "doOperation S op stop h = Some (R, e, h1)" and P: "P h"
    and opP: "\<And>c h r h1. P h \<Longrightarrow> op c h = Some (r, h1) \<Longrightarrow> P h1"
    and errP: "\<And>c e h. P h \<Longrightarrow> P (componentError c e h)"
  shows "P h1"
proof (cases "doOperationBuild op stop S [] None h")
  case (Inl a)
  then obtain e0 h0 where a: "a = (e0, h0)" by (cases a)
  from doOperationBuild_Inl [OF Inl [unfolded a]] obtain c where
    "h0 = componentError c (notFoundErr c) h" by blast
  moreover have "h1 = h0" using run Inl a by (simp add: doOperation_def)
  ultimately show ?thesis using P errP by simp
next
  case (Inr b)
  then obtain ops err0 h0 where b: "doOperationBuild op stop S [] None h = Inr (ops, err0, h0)"
    by (cases b) auto
  from doOperationBuild_Inr [OF b] have
    ops: "ops = map (closureOf op (components h)) (filter (\<lambda>c. map_of (components h) c \<noteq> None) S)"
    and h0: "h0 = notFoundErrors S h" by auto
  have P0: "P h0" unfolding h0 using P errP by (rule notFoundErrors_invariant)
  have run': "doPriorityOperations ops stop (h0, []) = Some (e, (h1, R))"
    using run b by (auto simp: doOperation_def split: option.splits)
  have "(\<lambda>s. P (fst s)) (h1, R)"
  proof (rule doPriorityOperations_invariant [OF run', where P = "\<lambda>s. P (fst s)"])
    show "P (fst (h0, []))" using P0 by simp
  next
    fix x s r s1
    assume x: "x \<in> set ops" and s: "P (fst s)" and o: "operation x s = Some (r, s1)"
    obtain c where "operation x = operationClosure op c"
      using x ops by (auto simp: closureOf_def)
    then have "operationClosure op c (fst s, snd s) = Some (r, (fst s1, snd s1))"
      using o by simp
    from operationClosure_invariant [OF this s opP errP] show "P (fst s1)" .
  qed
  then show ?thesis by simp
qed

lemma doRebootBuild_invariant:
  assumes "P h" and errP: "\<And>c e h. P h \<Longrightarrow> P (componentError c e h)"
  shows "case doRebootBuild env l stop S ops0 err0 h of
           Inl (e, h1) \<Rightarrow> P h1
         | Inr (ops, err, h1) \<Rightarrow>
             P h1 \<and> (\<forall>x \<in> set ops. x \<in> set ops0 \<or> (\<exists>c. operation x = rebootClosure env c l))"
  using assms(1)
proof (induction S arbitrary: ops0 err0 h)
  case Nil
  then show ?case by simp
next
  case (Cons c S)
  show ?case
  proof (cases "map_of (components h) c")
    case None
    have P1: "P (componentError c (notFoundErr c) h)" using Cons.prems errP by simp
    show ?thesis
      using None P1 Cons.IH [OF P1, of ops0 "if err0 = None then Some (notFoundErr c) else err0"]
      by (cases stop; cases err0) (simp_all add: Let_def)
  next
    case (Some d)
    show ?thesis
      using Some
        Cons.IH [OF Cons.prems, of "ops0 @ [\<lparr>priority = rebootPriority d,
                             operation = rebootClosure env c l\<rparr>]" err0]
      by (fastforce split: sum.splits)
  qed
qed

lemma rebootClosure_invariant:
  assumes "rebootClosure env c l h = Some (r, h1)" and "P h"
    and "\<And>c e h. P h \<Longrightarrow> P (componentError c e h)"
    and "\<And>c h. P h \<Longrightarrow> P (snd (Reboot env c h))"
  shows "P h1"
proof -
  have "P (snd (Reboot env c h))" using assms(2,4) by simp
  then show ?thesis using assms(1,3)
    by (cases "Reboot env c h") (auto simp: rebootClosure_def split: option.splits)
qed

lemma doReboot_invariant:
  assumes run: "doReboot env S stop h = Some (e, h1)" and P: "P h"
    and errP: "\<And>c e h. P h \<Longrightarrow> P (componentError c e h)"
    and rebP: "\<And>c h. P h \<Longrightarrow> P (snd (Reboot env c h))"
  shows "P h1"
proof (cases S)
  case Nil
  then show ?thesis using run P by (simp add: doReboot_def doPriorityOperations_def)
next
  case (Cons c S')
  note b = doRebootBuild_invariant [where P = P and h = h and env = env and l = "last S"
      and stop = stop and S = S and ?ops0.0 = "[]" and ?err0.0 = None, OF P errP]
  show ?thesis
  proof (cases "doRebootBuild env (last S) stop S [] None h")
    case (Inl a)
    then show ?thesis using b run Cons by (auto simp: doReboot_def)
  next
    case (Inr bb)
    then obtain ops err0 h0 where
      r: "doRebootBuild env (last S) stop S [] None h = Inr (ops, err0, h0)"
      by (cases bb) auto
    then have P0: "P h0"
      and ops: "\<forall>x \<in> set ops. \<exists>c. operation x = rebootClosure env c (last S)"
      using b by auto
    have run': "doPriorityOperations ops stop h0 = Some (e, h1)"
      using run r Cons by (simp add: doReboot_def)
    show ?thesis
    proof (rule doPriorityOperations_invariant [OF run', where P = P])
      show "P h0" by (rule P0)
    next
      fix x s r s1
      assume "x \<in> set ops" "P s" "operation x s = Some (r, s1)"
      then show "P s1" using ops rebootClosure_invariant [of env _ "last S" s r s1 P] errP rebP
        by metis
    qed
  qed
qed

lemma componentLoop_invariant:
  assumes run: "componentLoop env op stop S err h = Some (e, h')" and P: "P h"
    and opP: "\<And>c h r h1. P h \<Longrightarrow> op c h = Some (r, h1) \<Longrightarrow> P h1"
    and errP: "\<And>c e h. P h \<Longrightarrow> P (componentError c e h)"
    and rebP: "\<And>c h. P h \<Longrightarrow> P (snd (Reboot env c h))"
  shows "P h'"
proof -
  have D: "\<And>S R e h h1. doOperation S op stop h = Some (R, e, h1) \<Longrightarrow> P h \<Longrightarrow> P h1"
  proof -
    fix S R e h h1
    assume a: "doOperation S op stop h = Some (R, e, h1)" and p: "P h"
    show "P h1"
      by (rule doOperation_invariant [where P = P, OF a p]) (rule opP, assumption+, rule errP)
  qed
  have B: "\<And>S e h h1. doReboot env S stop h = Some (e, h1) \<Longrightarrow> P h \<Longrightarrow> P h1"
  proof -
    fix S e h h1
    assume a: "doReboot env S stop h = Some (e, h1)" and p: "P h"
    show "P h1"
      by (rule doReboot_invariant [where P = P, OF a p]) (rule errP, assumption, rule rebP)
  qed
  have "P h \<longrightarrow> P h'"
    by (rule componentLoop_cases [OF run, where Q = "\<lambda>S err h e h'. P h \<longrightarrow> P h'"])
       (use D B in blast)+
  then show ?thesis using P by simp
qed

subsection \<open>The number of updates of a component\<close>

lemma updateClosure_ok:
  assumes "operationClosure (updateOperation env) c (h, R0) = Some (None, (h1, R1))"
  shows "(calls h1 = calls h @ [CallUpdate c True None] \<and> R1 = R0 @ [c])
       \<or> (\<exists>v. calls h1 = calls h @ [CallUpdate c False None, CallGetVendorVersion c v None]
              \<and> R1 = R0)"
  using assms
  by (auto simp: operationClosure_def updateOperation_def Update_def GetVendorVersion_def
      logCall_def split: option.splits prod.splits if_splits)

lemma runClosures_update_counts:
  assumes "runClosures (operationClosure (updateOperation env)) S (h, R0) = Some (rs, (h1, R))"
    and "\<forall>r \<in> set rs. r = None" and "distinct S" and "set R0 \<inter> set S = {}" and "distinct R0"
  shows "distinct R \<and> set R0 \<subseteq> set R \<and> set R \<subseteq> set R0 \<union> set S
     \<and> (\<forall>cid. updateCalls cid (calls h1)
                 = updateCalls cid (calls h) + (if cid \<in> set S then 1 else 0)
              \<and> rebootRequiredReturns cid (calls h1)
                 = rebootRequiredReturns cid (calls h)
                   + (if cid \<in> set R \<and> cid \<notin> set R0 then 1 else 0))"
  using assms
proof (induction S arbitrary: h R0 rs)
  case Nil
  then show ?case by simp
next
  case (Cons c S)
  from Cons.prems(1) obtain r hm Rm rs' where
    op: "operationClosure (updateOperation env) c (h, R0) = Some (r, (hm, Rm))"
    and rest: "runClosures (operationClosure (updateOperation env)) S (hm, Rm) = Some (rs', (h1, R))"
    and rs: "rs = r # rs'"
    by (auto split: option.splits)
  have r: "r = None" and rs': "\<forall>r \<in> set rs'. r = None" using Cons.prems(2) rs by auto
  from updateClosure_ok [OF op [unfolded r]] have step:
    "(calls hm = calls h @ [CallUpdate c True None] \<and> Rm = R0 @ [c])
       \<or> (\<exists>v. calls hm = calls h @ [CallUpdate c False None, CallGetVendorVersion c v None]
              \<and> Rm = R0)" .
  have c: "c \<notin> set S" "c \<notin> set R0" using Cons.prems(3,4) by auto
  have dS: "distinct S" using Cons.prems(3) by simp
  have disj: "set Rm \<inter> set S = {}" using step Cons.prems(4) c by auto
  have dRm: "distinct Rm" using step Cons.prems(5) c by auto
  note IH = Cons.IH [OF rest rs' dS disj dRm]
  from step show ?case
  proof
    assume a: "calls hm = calls h @ [CallUpdate c True None] \<and> Rm = R0 @ [c]"
    then show ?thesis using IH c
      by (auto simp: updateCalls_def rebootRequiredReturns_def)
  next
    assume "\<exists>v. calls hm = calls h @ [CallUpdate c False None, CallGetVendorVersion c v None]
              \<and> Rm = R0"
    then obtain v where a: "calls hm = calls h @ [CallUpdate c False None, CallGetVendorVersion c v None]"
      and b: "Rm = R0" by blast
    have "c \<notin> set R" using IH c b by auto
    then show ?thesis using IH c a b
      by (auto simp: updateCalls_def rebootRequiredReturns_def)
  qed
qed

lemma doOperation_update_counts:
  assumes "doOperation S (updateOperation env) True h = Some (R, None, h1)" and "distinct S"
  shows "distinct R \<and> set R \<subseteq> set S
     \<and> (\<forall>cid. updateCalls cid (calls h1)
                 = updateCalls cid (calls h) + (if cid \<in> set S then 1 else 0)
              \<and> rebootRequiredReturns cid (calls h1)
                 = rebootRequiredReturns cid (calls h) + (if cid \<in> set R then 1 else 0))"
proof -
  from doOperation_ok [OF assms(1)] obtain S' rs where
    m: "mset S' = mset S"
    and run: "runClosures (operationClosure (updateOperation env)) S' (h, []) = Some (rs, (h1, R))"
    and rs: "\<forall>r \<in> set rs. r = None"
    by blast
  have d: "distinct S'" using m assms(2) by (metis mset_eq_imp_distinct_iff)
  have s: "set S' = set S" using m by (metis set_mset_mset)
  from runClosures_update_counts [OF run rs d] show ?thesis using s by simp
qed

lemma setError_fields [simp]:
  "calls (setError e h) = calls h"
  "components (setError e h) = components h"
  "storage (setError e h) = storage h"
  "world (setError e h) = world h"
  "fsm (setError e h) = fsm h"
  "componentStatuses (setError e h) = componentStatuses h"
  "downloadDir (setError e h) = downloadDir h"
  "ComponentStatuses (state (setError e h)) = ComponentStatuses (state h)"
  "UpdateState (state (setError e h)) = UpdateState (state h)"
  "Error (state (setError e h)) = e"
  by (simp_all add: setError_def)

lemma SetState_fields [simp]:
  "calls (SetState st h) = calls h"
  "components (SetState st h) = components h"
  "storage (SetState st h) = storage h"
  "world (SetState st h) = world h"
  "current (fsm (SetState st h)) = st"
  "transition (fsm (SetState st h)) = transition (fsm h)"
  "componentStatuses (SetState st h) = componentStatuses h"
  "downloadDir (SetState st h) = downloadDir h"
  "state (SetState st h) = state h"
  by (simp_all add: SetState_def)

lemma componentError_state [simp]:
  "map csID (ComponentStatuses (state (componentError c e h))) = map csID (ComponentStatuses (state h))"
  "map csVendorVersion (ComponentStatuses (state (componentError c e h)))
     = map csVendorVersion (ComponentStatuses (state h))"
  "map csAosVersion (ComponentStatuses (state (componentError c e h)))
     = map csAosVersion (ComponentStatuses (state h))"
  "UpdateState (state (componentError c e h)) = UpdateState (state h)"
  "Error (state (componentError c e h)) = Error (state h)"
  by (simp_all add: componentError_def updStatuses_def)

lemma Reboot_fields [simp]:
  "calls (snd (Reboot env c h)) = calls h @ [CallReboot c (fst (mReboot env c (world h)))]"
  "components (snd (Reboot env c h)) = components h"
  "storage (snd (Reboot env c h)) = storage h"
  "state (snd (Reboot env c h)) = state h"
  "fsm (snd (Reboot env c h)) = fsm h"
  "componentStatuses (snd (Reboot env c h)) = componentStatuses h"
  "downloadDir (snd (Reboot env c h)) = downloadDir h"
  by (simp_all add: Reboot_def logCall_def split: prod.splits)

lemma doReboot_update_counts:
  assumes "doReboot env S stop h = Some (e, h1)"
  shows "filter (isUpdateOf cid) (calls h1) = filter (isUpdateOf cid) (calls h)
       \<and> filter (isRebootRequiredOf cid) (calls h1) = filter (isRebootRequiredOf cid) (calls h)"
  by (rule doReboot_invariant [OF assms,
        where P = "\<lambda>x. filter (isUpdateOf cid) (calls x) = filter (isUpdateOf cid) (calls h)
       \<and> filter (isRebootRequiredOf cid) (calls x) = filter (isRebootRequiredOf cid) (calls h)"])
     simp_all

lemma componentLoop_update_counts:
  assumes run: "componentLoop env (updateOperation env) True S err h = Some (None, h')"
    and d: "distinct S"
  shows "updateCalls cid (calls h') + rebootRequiredReturns cid (calls h)
       = updateCalls cid (calls h) + rebootRequiredReturns cid (calls h')
         + (if cid \<in> set S then 1 else 0)"
proof -
  let ?Q = "\<lambda>S (err::error option) h (e::error option) h'. e = None \<longrightarrow> distinct S \<longrightarrow>
     (\<forall>cid. updateCalls cid (calls h') + rebootRequiredReturns cid (calls h)
       = updateCalls cid (calls h) + rebootRequiredReturns cid (calls h')
         + (if cid \<in> set S then 1 else 0))"
  have "?Q S err h None h'"
  proof (rule componentLoop_cases [OF run, where Q = ?Q], goal_cases)
    case (1 err h)
    then show ?case by simp
  next
    case (2 S err h R opError h1)
    then show ?case by auto
  next
    case (3 S err h opError h1)
    show ?case
    proof (intro impI)
      assume e: "(if opError \<noteq> None \<and> err = None then opError else err) = None"
        and dS: "distinct S"
      have "opError = None" using 3(3) by simp
      with 3(2) have "doOperation S (updateOperation env) True h = Some ([], None, h1)" by simp
      from doOperation_update_counts [OF this dS] show "\<forall>cid. updateCalls cid (calls h1) + rebootRequiredReturns cid (calls h)
       = updateCalls cid (calls h) + rebootRequiredReturns cid (calls h1)
         + (if cid \<in> set S then 1 else 0)" by simp
    qed
  next
    case (4 S err h R opError h1 rebootError h2)
    then show ?case by auto
  next
    case (5 S err h R opError h1 rebootError h2 e h')
    show ?case
    proof (intro impI allI)
      fix cid
      assume e: "e = None" and dS: "distinct S"
      have "opError = None" using 5(3) by simp
      with 5(2) have "doOperation S (updateOperation env) True h = Some (R, None, h1)" by simp
      from doOperation_update_counts [OF this dS] have dR: "distinct R" and sub: "set R \<subseteq> set S"
        and c1: "updateCalls cid (calls h1) = updateCalls cid (calls h) + (if cid \<in> set S then 1 else 0)"
        and c2: "rebootRequiredReturns cid (calls h1)
                 = rebootRequiredReturns cid (calls h) + (if cid \<in> set R then 1 else 0)"
        by auto
      from doReboot_update_counts [OF 5(5), of cid] have
        c3: "updateCalls cid (calls h2) = updateCalls cid (calls h1)"
        and c4: "rebootRequiredReturns cid (calls h2) = rebootRequiredReturns cid (calls h1)"
        by (simp_all add: updateCalls_def rebootRequiredReturns_def)
      from 5(7) e dR have c5: "updateCalls cid (calls h') + rebootRequiredReturns cid (calls h2)
       = updateCalls cid (calls h2) + rebootRequiredReturns cid (calls h')
         + (if cid \<in> set R then 1 else 0)" by simp
      show "updateCalls cid (calls h') + rebootRequiredReturns cid (calls h)
       = updateCalls cid (calls h) + rebootRequiredReturns cid (calls h')
         + (if cid \<in> set S then 1 else 0)"
        using c1 c2 c3 c4 c5 by (auto split: if_splits)
    qed
  qed
  then show ?thesis using d by simp
qed

lemma handleEvent_accepted:
  assumes "handleEvent env ev args h = Some (None, h')"
  obtains dst h1 h2 where
    "transitions handlerEvents (ev, current (fsm h)) = Some dst"
    "transition (fsm h) = None"
    "afterEvent env \<lparr>evEvent = ev, evSrc = current (fsm h), evDst = dst, evArgs = args\<rparr>
       (SetState dst (h\<lparr>fsm := (fsm h)\<lparr>transition :=
           Some \<lparr>evEvent = ev, evSrc = current (fsm h), evDst = dst, evArgs = args\<rparr>\<rparr>\<rparr>))
       = Some h1"
    "onStateChanged env h1 = Some h2"
    "h' = h2\<lparr>fsm := (fsm h2)\<lparr>transition := None\<rparr>\<rparr>"
proof -
  have can: "\<not> Cannot (fsm h) ev"
    using assms by (auto simp: handleEvent_def sendEvent_def split: if_splits)
  then obtain dst where dst: "transitions handlerEvents (ev, current (fsm h)) = Some dst"
    and tr: "transition (fsm h) = None"
    by (auto simp: Cannot_def Can_def)
  have ne: "current (fsm h) \<noteq> dst"
    using dst by (cases ev) (auto simp: transitions_handlerEvents split: if_splits)
  let ?e = "\<lparr>evEvent = ev, evSrc = current (fsm h), evDst = dst, evArgs = args\<rparr>"
  have se: "sendEvent ev args h = (None, h\<lparr>fsm := (fsm h)\<lparr>transition := Some ?e\<rparr>\<rparr>)"
    using can dst tr ne by (simp add: sendEvent_def Event_def)
  then have "Transition env (h\<lparr>fsm := (fsm h)\<lparr>transition := Some ?e\<rparr>\<rparr>) = Some h'"
    using assms by (auto simp: handleEvent_def split: option.splits)
  then obtain h1 h2 where
    "afterEvent env ?e (SetState dst (h\<lparr>fsm := (fsm h)\<lparr>transition := Some ?e\<rparr>\<rparr>)) = Some h1"
    "onStateChanged env h1 = Some h2" "h' = h2\<lparr>fsm := (fsm h2)\<lparr>transition := None\<rparr>\<rparr>"
    by (auto simp: Transition_def split: option.splits)
  then show ?thesis using that dst tr by blast
qed

lemma onStateChanged_not_idle:
  assumes "onStateChanged env h = Some h2" and "current (fsm h) \<noteq> stateIdle"
  shows "\<exists>st r. calls h2 = calls h @ [CallSetUpdateState st r]
           \<and> current (fsm h2) = (if r = None then current (fsm h) else stateFailed)
           \<and> ComponentStatuses (state h2) = ComponentStatuses (state h)
           \<and> storage h2 = (if r = None then (storage h)\<lparr>stUpdateState := Some st\<rparr> else storage h)
           \<and> Error (state h2) = (if r = None \<or> Error (state h) \<noteq> '''' then Error (state h) else the r)"
proof -
  let ?st = "(state h)\<lparr>UpdateState := current (fsm h)\<rparr>"
  let ?w = "world h"
  show ?thesis
  proof (cases "setUpdateStateErr env ?st ?w")
    case None
    then show ?thesis using assms
      by (intro exI [of _ ?st] exI [of _ None])
         (auto simp add: onStateChanged_def saveState_def SetUpdateState_def logCall_def
            sendStatus_def Let_def)
  next
    case (Some x)
    then show ?thesis using assms
      by (intro exI [of _ ?st] exI [of _ "Some x"])
         (auto simp add: onStateChanged_def saveState_def SetUpdateState_def logCall_def
            sendStatus_def Let_def setError_def SetState_def)
  qed
qed

lemma updateOperation_calls:
  "updateOperation env c h = Some (r, h1) \<Longrightarrow> \<exists>cs. calls h1 = calls h @ cs"
  by (auto simp: updateOperation_def Update_def GetVendorVersion_def logCall_def
      split: option.splits prod.splits if_splits)

lemma updateOperation_fsm:
  "updateOperation env c h = Some (r, h1) \<Longrightarrow> fsm h1 = fsm h"
  by (auto simp: updateOperation_def Update_def GetVendorVersion_def logCall_def
      split: option.splits prod.splits if_splits)

lemma componentLoop_calls_grow:
  assumes "componentLoop env op stop S err h = Some (e, h')"
    and "\<And>c h r h1. op c h = Some (r, h1) \<Longrightarrow> \<exists>cs. calls h1 = calls h @ cs"
  shows "\<exists>cs. calls h' = calls h @ cs"
proof (rule componentLoop_invariant [OF assms(1), where P = "\<lambda>x. \<exists>cs. calls x = calls h @ cs"])
  show "\<exists>cs. calls h = calls h @ cs" by simp
next
  fix c x r h1
  assume "\<exists>cs. calls x = calls h @ cs" "op c x = Some (r, h1)"
  then show "\<exists>cs. calls h1 = calls h @ cs" using assms(2) [of c x r h1] by auto
qed auto

lemma counts_newCalls:
  assumes "calls h' = calls h @ cs"
  shows "updateCalls cid (newCalls h h') = updateCalls cid (calls h') - updateCalls cid (calls h)"
    "rebootRequiredReturns cid (newCalls h h')
       = rebootRequiredReturns cid (calls h') - rebootRequiredReturns cid (calls h)"
    "updateCalls cid (calls h) \<le> updateCalls cid (calls h')"
    "rebootRequiredReturns cid (calls h) \<le> rebootRequiredReturns cid (calls h')"
  using assms by (simp_all add: newCalls_def updateCalls_def rebootRequiredReturns_def)

text \<open>
  Claim C3.  In an update transition that settles in state updated (no operation has
  returned an error), every component of the update set has had its \<open>Update\<close> called once
  more than \<open>Update\<close> returned \<open>rebootRequired = true\<close> for it.  The component ids of
  the update set are distinct, as the keys of the map they come from.
\<close>

theorem update_invocation_count:
  assumes run: "handleEvent env eventUpdate args h = Some (None, h')"
    and settled: "current (fsm h') = stateUpdated"
    and d: "distinct (map csID (ComponentStatuses (state h)))"
    and cid: "cid \<in> set (map csID (ComponentStatuses (state h)))"
  shows "updateCalls cid (newCalls h h') = rebootRequiredReturns cid (newCalls h h') + 1"
proof -
  from handleEvent_accepted [OF run] obtain dst h1 h2 where
    dst: "transitions handlerEvents (eventUpdate, current (fsm h)) = Some dst"
    and after: "afterEvent env \<lparr>evEvent = eventUpdate, evSrc = current (fsm h), evDst = dst, evArgs = args\<rparr>
       (SetState dst (h\<lparr>fsm := (fsm h)\<lparr>transition :=
           Some \<lparr>evEvent = eventUpdate, evSrc = current (fsm h), evDst = dst, evArgs = args\<rparr>\<rparr>\<rparr>))
       = Some h1"
    and changed: "onStateChanged env h1 = Some h2"
    and h': "h' = h2\<lparr>fsm := (fsm h2)\<lparr>transition := None\<rparr>\<rparr>"
    by blast
  have dst': "dst = stateUpdated"
    using dst by (auto simp: transitions_handlerEvents split: if_splits)
  let ?h0 = "setError '''' (SetState dst (h\<lparr>fsm := (fsm h)\<lparr>transition :=
           Some \<lparr>evEvent = eventUpdate, evSrc = current (fsm h), evDst = dst, evArgs = args\<rparr>\<rparr>\<rparr>))"
  obtain e hc where co: "componentOperation env (updateOperation env) True ?h0 = Some (e, hc)"
    and h1: "h1 = (case e of None \<Rightarrow> hc | Some x \<Rightarrow> SetState stateFailed (setError x hc))"
    using after by (auto simp: afterEvent_def onUpdateState_def split: option.splits)
  have cur_hc: "current (fsm hc) = stateUpdated"
  proof (rule componentLoop_invariant [OF co [unfolded componentOperation_def],
          where P = "\<lambda>x. current (fsm x) = stateUpdated"])
    show "current (fsm ?h0) = stateUpdated" by (simp add: dst')
  next
    fix c x r x1
    assume "current (fsm x) = stateUpdated" "updateOperation env c x = Some (r, x1)"
    then show "current (fsm x1) = stateUpdated" by (simp add: updateOperation_fsm)
  qed simp_all
  have e: "e = None"
  proof (cases e)
    case (Some x)
    then have "current (fsm h1) = stateFailed" using h1 by simp
    then have "current (fsm h2) = stateFailed"
      using onStateChanged_not_idle [OF changed] by auto
    then show ?thesis using settled h' by simp
  qed simp
  have h1': "h1 = hc" using h1 e by simp
  have S: "map csID (ComponentStatuses (state ?h0)) = map csID (ComponentStatuses (state h))"
    by simp
  have loop: "componentLoop env (updateOperation env) True (map csID (ComponentStatuses (state h)))
                None ?h0 = Some (None, hc)"
    using co e by (simp add: componentOperation_def)
  from componentLoop_update_counts [OF loop d, of cid] cid
  have c: "updateCalls cid (calls hc) + rebootRequiredReturns cid (calls h)
       = updateCalls cid (calls h) + rebootRequiredReturns cid (calls hc) + 1"
    by simp
  have "\<exists>cs. calls hc = calls ?h0 @ cs"
    by (rule componentLoop_calls_grow [OF loop]) (rule updateOperation_calls)
  then obtain cs where cs: "calls hc = calls h @ cs" by auto
  obtain st r where "calls h2 = calls hc @ [CallSetUpdateState st r]"
    using onStateChanged_not_idle [OF changed] h1' cur_hc by auto
  then have calls': "calls h' = calls h @ cs @ [CallSetUpdateState st r]"
    using h' cs by simp
  have u: "updateCalls cid (calls h') = updateCalls cid (calls hc)"
    and t: "rebootRequiredReturns cid (calls h') = rebootRequiredReturns cid (calls hc)"
    using calls' cs by (simp_all add: updateCalls_def rebootRequiredReturns_def)
  show ?thesis
    using counts_newCalls [OF calls', of cid] c u t by simp
qed

theorem update_invocation_count_witness:
  "updateCalls ''m1'' (resultCalls (handleEvent scenarioEnv eventUpdate [] scenarioPrepared)) = 2
   \<and> rebootRequiredReturns ''m1''
        (resultCalls (handleEvent scenarioEnv eventUpdate [] scenarioPrepared)) = 1
   \<and> resultState (handleEvent scenarioEnv eventUpdate [] scenarioPrepared) = Some stateUpdated"
proof -
  let ?r = "handleEvent scenarioEnv eventUpdate [] scenarioPrepared"
  have a: "resultError ?r = Some None" by code_simp
  have b: "resultState ?r = Some stateUpdated" by code_simp
  have c: "rebootRequiredReturns ''m1'' (resultCalls ?r) = 1" by code_simp
  from a obtain h' where r: "?r = Some (None, h')"
    by (cases ?r) (auto simp: resultError_def)
  have settled: "current (fsm h') = stateUpdated" using b r by (simp add: resultState_def)
  have d: "distinct (map csID (ComponentStatuses (state scenarioPrepared)))"
    and m: "''m1'' \<in> set (map csID (ComponentStatuses (state scenarioPrepared)))"
    and n: "calls scenarioPrepared = []"
    by (simp_all add: scenarioPrepared_def scenarioHandler_def installingStatus_def
        scenarioRequest_def)
  have "newCalls scenarioPrepared h' = resultCalls ?r"
    using r n by (simp add: newCalls_def resultCalls_def)
  then show ?thesis
    using update_invocation_count [OF r settled d m] b c by simp
qed

end
